theory Spec2Isabelle
  imports Main "HOL-Library.Signed_Division"
begin

section \<open>The Videra upload client (src/main.go)\<close>

text \<open>
  The client talks to two kinds of servers (a master, which names a data node, and the
  data node, which takes the bytes) and reads local files. Both are outside the program,
  so the model takes them as inputs:
  \<^item> the file system is a map from paths to nodes;
  \<^item> the network is a script: the list of what \<open>client.Do\<close> returns, call after call.
    A function that needs one more reply than the script holds yields \<open>None\<close>; every
    other result is \<open>Some\<close>. The transfer loop has no bound of its own (a server may
    answer every chunk with a correction), so the script is also what bounds it.
  Package-level variables are the record \<open>globals\<close>, passed in and returned.
  \<open>log.Fatal\<close> and a runtime panic end the process: they are values of \<open>halt\<close>.
  Every function that sends requests also returns its exchanges (each request with the
  reply it got), in order.

  Two bounds of the machine the client runs on are parameters, the record \<open>limits\<close>:
  the largest offset the file system accepts in a seek, and the largest length \<open>make\<close>
  can allocate.

  Not modelled: the wait on the ticker between two trials; what the retrying client does
  before \<open>client.Do\<close> returns; log output. Addresses are taken to be well-formed, so that
  \<open>http.NewRequest\<close>, whose error the client drops, returns a request.
\<close>

subsection \<open>Library functions the client calls\<close>

text \<open>
  \<open>strconv.ParseInt(s, 10, 64)\<close>. The client drops the error it returns, so the model
  gives the number alone: 0 on a syntax error, the nearest bound on a range error.
\<close>

definition isDigit :: "char \<Rightarrow> bool" where
  "isDigit c = (48 \<le> (of_char c :: nat) \<and> (of_char c :: nat) \<le> 57)"

definition digitVal :: "char \<Rightarrow> int" where
  "digitVal c = of_char c - 48"

definition maxUint64 :: int where
  "maxUint64 = 2 ^ 64 - 1"

fun ParseUint_from :: "int \<Rightarrow> string \<Rightarrow> int option" where
  "ParseUint_from n [] = Some n"
| "ParseUint_from n (c # cs) =
     (if \<not> isDigit c then None
      else if n \<ge> maxUint64 div 10 + 1 then Some maxUint64
      else if n * 10 + digitVal c > maxUint64 then Some maxUint64
      else ParseUint_from (n * 10 + digitVal c) cs)"

definition ParseUint :: "string \<Rightarrow> int option" where
  "ParseUint s = (if s = [] then None else ParseUint_from 0 s)"

definition ParseInt :: "string \<Rightarrow> int" where
  "ParseInt s =
     (if s = [] then 0
      else
        let neg = (hd s = CHR ''-'');
            s1 = (if hd s = CHR ''+'' \<or> hd s = CHR ''-'' then tl s else s)
        in case ParseUint s1 of
             None \<Rightarrow> 0
           | Some un \<Rightarrow>
               if \<not> neg \<and> un \<ge> 2 ^ 63 then 2 ^ 63 - 1
               else if neg \<and> un > 2 ^ 63 then - (2 ^ 63)
               else if neg then - un else un)"

text \<open>Arithmetic on \<open>int64\<close> wraps around.\<close>

definition wrap64 :: "int \<Rightarrow> int" where
  "wrap64 x = (x + 2 ^ 63) mod 2 ^ 64 - 2 ^ 63"

text \<open>
  \<open>http.Header.Get\<close>: the value stored under a key, the empty string when there is none.
  The header is keyed here by the names as the client writes them.
\<close>

definition Get :: "(string \<times> string) list \<Rightarrow> string \<Rightarrow> string" where
  "Get h key = (case map_of h key of None \<Rightarrow> [] | Some v \<Rightarrow> v)"

datatype error = EOF | PathError string | ClientError | MasterError string

text \<open>
  Local files. A path names a regular file with its bytes, a directory (which
  \<open>os.Open\<close> opens and \<open>Read\<close> refuses), a file the process may not read (which
  \<open>os.Stat\<close> accepts and \<open>os.Open\<close> refuses), or nothing. For the last two kinds the
  number is the size \<open>os.Stat\<close> reports.
\<close>

datatype node = RegularFile string | Directory int | NoAccess int

type_synonym filesystem = "string \<rightharpoonup> node"

definition Stat :: "filesystem \<Rightarrow> string \<Rightarrow> error + int" where
  "Stat fs p =
     (case fs p of
        None \<Rightarrow> Inl (PathError p)
      | Some (RegularFile bs) \<Rightarrow> Inr (int (length bs))
      | Some (Directory n) \<Rightarrow> Inr n
      | Some (NoAccess n) \<Rightarrow> Inr n)"

definition Open :: "filesystem \<Rightarrow> string \<Rightarrow> error + node" where
  "Open fs p =
     (case fs p of
        None \<Rightarrow> Inl (PathError p)
      | Some (NoAccess n) \<Rightarrow> Inl (PathError p)
      | Some (RegularFile bs) \<Rightarrow> Inr (RegularFile bs)
      | Some (Directory n) \<Rightarrow> Inr (Directory n))"

text \<open>
  \<open>file.Read(buffer)\<close> at position \<open>p\<close> with a buffer of \<open>n\<close> bytes: the bytes read, or
  the error. A buffer of length 0 reads nothing and reports no error; at or past the end
  of the file the error is \<open>io.EOF\<close>.
\<close>

definition Read :: "node \<Rightarrow> nat \<Rightarrow> nat \<Rightarrow> error + string" where
  "Read f p n =
     (if n = 0 then Inr []
      else case f of
             Directory _ \<Rightarrow> Inl (PathError ''is a directory'')
           | NoAccess _ \<Rightarrow> Inl (PathError ''permission denied'')
           | RegularFile bs \<Rightarrow> if p \<ge> length bs then Inl EOF else Inr (take n (drop p bs)))"

record limits =
  maxSeek :: int
  maxAlloc :: int

text \<open>
  \<open>file.Seek(offset, 0)\<close>: the new position. The system refuses a negative offset and
  one above the largest the file system allows, and then the position stays; the client
  does not look at the error.
\<close>

definition Seek :: "limits \<Rightarrow> nat \<Rightarrow> int \<Rightarrow> nat" where
  "Seek lim p off = (if off < 0 \<or> off > maxSeek lim then p else nat off)"

text \<open>
  \<open>make([]byte, n)\<close> ends the process when \<open>n\<close> is negative or more than can be
  allocated.
\<close>

definition makeFails :: "limits \<Rightarrow> int \<Rightarrow> bool" where
  "makeFails lim n = (n < 0 \<or> n > maxAlloc lim)"

subsection \<open>Requests, replies and process state\<close>

record response =
  StatusCode :: int
  Header :: "(string \<times> string) list"
  Body :: "string option"

text \<open>
  What \<open>client.Do\<close> returns: an error, or a response. \<open>Body = None\<close> is a body whose read
  fails.
\<close>

datatype reply = DoFails | Responds response

text \<open>
  The requests the client sends. \<open>Append url id offset body\<close> carries the headers
  \<open>ID\<close> and \<open>Offset\<close> (the decimal text of the number); \<open>InitRequest\<close> carries the path
  whose base name is the \<open>Filename\<close> header, the file type and the size headers.
\<close>

datatype request =
    Discover string
  | InitRequest string string string "(string \<times> int) list"
  | Append string string int string

type_synonym exchange = "request \<times> reply"

datatype halt =
    FatalNoMasters
  | FatalReadBody
  | FatalInitStatus int
  | FatalStat error
  | FatalNotUploaded
  | PanicNilFile
  | PanicMakeSlice
  | PanicDivideByZero
  | PanicIndex

datatype 'a result = Returns 'a | Halts halt

record globals =
  chunkSize :: int
  masterURL :: string
  uploadURL :: string
  mastersURLS :: "string list"
  lastUsedMaster :: int

definition defaultMaxRetries :: nat where
  "defaultMaxRetries = 3"

definition modelUploadOrder :: "string list" where
  "modelUploadOrder = [''model'', ''config'', ''code'']"

definition initial :: globals where
  "initial = \<lparr>chunkSize = push_bit 20 4, masterURL = [], uploadURL = [],
              mastersURLS = [], lastUsedMaster = - 1\<rparr>"

subsection \<open>Master pool\<close>

text \<open>
  \<open>updateMasterURL\<close>. \<open>lastUsedMaster\<close> is an \<open>int\<close> (64 bits): the addition wraps.
  Go's \<open>%\<close> truncates towards zero (\<open>smod\<close>) and panics on a zero divisor; indexing
  outside the slice panics.
\<close>

definition updateMasterURL :: "globals \<Rightarrow> globals result" where
  "updateMasterURL g =
     (if length (mastersURLS g) = 0 then Halts PanicDivideByZero
      else
        let i = wrap64 (lastUsedMaster g + 1) smod int (length (mastersURLS g))
        in if i < 0 \<or> i \<ge> int (length (mastersURLS g)) then Halts PanicIndex
           else Returns (g\<lparr>lastUsedMaster := i, masterURL := mastersURLS g ! nat i\<rparr>))"

text \<open>The start of \<open>main\<close>: the positional arguments are the masters.\<close>

definition startup :: "string list \<Rightarrow> globals result" where
  "startup args =
     (if length args = 0 then Halts FatalNoMasters
      else updateMasterURL (initial\<lparr>mastersURLS := mastersURLS initial @ args\<rparr>))"

text \<open>\<open>rotations k g\<close>: the cursor after each of \<open>k\<close> calls of \<open>updateMasterURL\<close> in a row.\<close>

fun rotations :: "nat \<Rightarrow> globals \<Rightarrow> int list" where
  "rotations 0 g = []"
| "rotations (Suc k) g =
     (case updateMasterURL g of
        Halts h \<Rightarrow> []
      | Returns g' \<Rightarrow> lastUsedMaster g' # rotations k g')"

subsection \<open>Session negotiation\<close>

type_synonym 'a io = "('a \<times> globals \<times> reply list \<times> exchange list) option"

definition updateUploadURL :: "globals \<Rightarrow> reply list \<Rightarrow> error option result io" where
  "updateUploadURL g rs =
     (case rs of
        [] \<Rightarrow> None
      | r # rs' \<Rightarrow>
          (case r of
             DoFails \<Rightarrow> Some (Returns (Some ClientError), g, rs', [(Discover (masterURL g), r)])
           | Responds res \<Rightarrow>
               (case Body res of
                  None \<Rightarrow> Some (Halts FatalReadBody, g, rs', [(Discover (masterURL g), r)])
                | Some body \<Rightarrow>
                    if StatusCode res \<noteq> 200
                    then Some (Returns (Some (MasterError body)), g, rs',
                               [(Discover (masterURL g), r)])
                    else Some (Returns None, g\<lparr>uploadURL := body\<rparr>, rs',
                               [(Discover (masterURL g), r)]))))"

definition getFileSize :: "filesystem \<Rightarrow> string \<Rightarrow> error + int" where
  "getFileSize fs filepath = Stat fs filepath"

text \<open>
  \<open>sendInitialRequest\<close>. The \<open>chunkSize\<close> that receives the parsed \<open>Max-Request-Size\<close> is
  declared by \<open>:=\<close> inside the \<open>if\<close>, a variable of that block: the package-level
  \<open>chunkSize\<close> is not assigned, and the globals come back as they were.
\<close>

definition sendInitialRequest ::
  "globals \<Rightarrow> string \<Rightarrow> string \<Rightarrow> (string \<times> int) list \<Rightarrow> reply list
    \<Rightarrow> (string \<times> error option) result io" where
  "sendInitialRequest g filepath filetype extraHeaders rs =
     (case rs of
        [] \<Rightarrow> None
      | r # rs' \<Rightarrow>
          (case r of
             DoFails \<Rightarrow>
               Some (Returns ([], Some ClientError), g, rs',
                     [(InitRequest (uploadURL g) filepath filetype extraHeaders, r)])
           | Responds res \<Rightarrow>
               if StatusCode res \<noteq> 201
               then Some (Halts (FatalInitStatus (StatusCode res)), g, rs',
                          [(InitRequest (uploadURL g) filepath filetype extraHeaders, r)])
               else Some (Returns (Get (Header res) ''ID'', None), g, rs',
                          [(InitRequest (uploadURL g) filepath filetype extraHeaders, r)])))"

definition sendVideoInitialRequest ::
  "filesystem \<Rightarrow> globals \<Rightarrow> string \<Rightarrow> reply list \<Rightarrow> (string \<times> error option) result io" where
  "sendVideoInitialRequest fs g videoPath rs =
     (case getFileSize fs videoPath of
        Inl err \<Rightarrow> Some (Halts (FatalStat err), g, rs, [])
      | Inr videoSize \<Rightarrow>
          sendInitialRequest g videoPath ''video'' [(''Filesize'', videoSize)] rs)"

definition sendModelInitialRequest ::
  "filesystem \<Rightarrow> globals \<Rightarrow> string \<Rightarrow> string \<Rightarrow> string \<Rightarrow> reply list
    \<Rightarrow> (string \<times> error option) result io" where
  "sendModelInitialRequest fs g modelPath configPath codePath rs =
     (case getFileSize fs modelPath of
        Inl err \<Rightarrow> Some (Halts (FatalStat err), g, rs, [])
      | Inr modelSize \<Rightarrow>
          (case getFileSize fs configPath of
             Inl err \<Rightarrow> Some (Halts (FatalStat err), g, rs, [])
           | Inr configSize \<Rightarrow>
               (case getFileSize fs codePath of
                  Inl err \<Rightarrow> Some (Halts (FatalStat err), g, rs, [])
                | Inr codeSize \<Rightarrow>
                    sendInitialRequest g modelPath ''model''
                      [(''Filesize'', wrap64 (wrap64 (modelSize + configSize) + codeSize)),
                       (''Model-Size'', modelSize),
                       (''Config-Size'', configSize),
                       (''Code-Size'', codeSize)] rs)))"

subsection \<open>Chunked transfer\<close>

text \<open>
  The variables of \<open>uploadFiles\<close> while it runs: the globals, the length of \<open>buffer\<close>,
  \<open>offset\<close>, and the read position of the file that is open.
\<close>

record transfer =
  glob :: globals
  buffer :: nat
  offset :: int
  pos :: nat

text \<open>How the inner \<open>for\<close> loop ends: \<open>break\<close>, or \<open>uploadFiles\<close> itself ends.\<close>

datatype flow = Break | Stop "error option result"

definition sent ::
  "exchange \<Rightarrow> (flow \<times> transfer \<times> reply list \<times> exchange list) option
    \<Rightarrow> (flow \<times> transfer \<times> reply list \<times> exchange list) option" where
  "sent x res = (case res of None \<Rightarrow> None | Some (e, st, rs, xs) \<Rightarrow> Some (e, st, rs, x # xs))"

text \<open>
  The inner loop, for the file of index \<open>idx\<close>. The last \<open>return err\<close> (a status that is
  not 200 or 201, without \<open>Offset\<close> and \<open>Max-Request-Size\<close>) returns the \<open>err\<close> that
  \<open>client.Do\<close> assigned, which is \<open>nil\<close> on that path.
\<close>

fun fileLoop ::
  "limits \<Rightarrow> string \<Rightarrow> nat \<Rightarrow> node \<Rightarrow> transfer \<Rightarrow> reply list
    \<Rightarrow> (flow \<times> transfer \<times> reply list \<times> exchange list) option" where
  "fileLoop lim ident idx file st rs =
     (case Read file (pos st) (buffer st) of
        Inl err \<Rightarrow>
          if err = EOF then
            if int idx = int (length modelUploadOrder) - 1
            then Some (Stop (Returns (Some err)), st, rs, [])
            else Some (Break, st, rs, [])
          else Some (Stop (Returns (Some err)), st, rs, [])
      | Inr chunk \<Rightarrow>
          (case rs of
             [] \<Rightarrow> None
           | r # rs' \<Rightarrow>
               (let st1 = st\<lparr>pos := pos st + length chunk\<rparr>;
                    x = (Append (uploadURL (glob st)) ident (offset st) chunk, r)
                in case r of
                     DoFails \<Rightarrow> Some (Stop (Returns (Some ClientError)), st1, rs', [x])
                   | Responds res \<Rightarrow>
                       if StatusCode res \<noteq> 200 then
                         if StatusCode res = 201 then Some (Stop (Returns None), st1, rs', [x])
                         else if Get (Header res) ''Offset'' \<noteq> [] then
                           (let newOffset = ParseInt (Get (Header res) ''Offset'')
                            in sent x (fileLoop lim ident idx file
                                 (st1\<lparr>offset := newOffset, pos := Seek lim (pos st1) newOffset\<rparr>) rs'))
                         else if Get (Header res) ''Max-Request-Size'' \<noteq> [] then
                           (let newChunkSize = ParseInt (Get (Header res) ''Max-Request-Size'');
                                st2 = st1\<lparr>glob := (glob st1)\<lparr>chunkSize := newChunkSize\<rparr>\<rparr>
                            in if makeFails lim newChunkSize
                               then Some (Stop (Halts PanicMakeSlice), st2, rs', [x])
                               else sent x (fileLoop lim ident idx file
                                      (st2\<lparr>buffer := nat newChunkSize,
                                           pos := Seek lim (pos st2) (offset st2)\<rparr>) rs'))
                         else Some (Stop (Returns None), st1, rs', [x])
                       else sent x (fileLoop lim ident idx file
                              (st1\<lparr>offset := wrap64 (offset st1 + int (length chunk))\<rparr>) rs'))))"

declare fileLoop.simps [simp del]

text \<open>
  The outer loop over \<open>uploadOrder\<close>. A missing key of \<open>filesPaths\<close> reads as the empty
  path. When \<open>os.Open\<close> fails, \<open>file\<close> is \<open>nil\<close> and \<open>file.Name()\<close>, evaluated for the log
  line before \<open>err\<close> is looked at, dereferences it.
\<close>

fun filesLoop ::
  "limits \<Rightarrow> filesystem \<Rightarrow> string \<Rightarrow> (string \<rightharpoonup> string) \<Rightarrow> nat \<Rightarrow> string list \<Rightarrow> transfer \<Rightarrow> reply list
    \<Rightarrow> (flow \<times> transfer \<times> reply list \<times> exchange list) option" where
  "filesLoop lim fs ident filesPaths idx [] st rs = Some (Stop (Returns None), st, rs, [])"
| "filesLoop lim fs ident filesPaths idx (fileName # rest) st rs =
     (case Open fs (case filesPaths fileName of None \<Rightarrow> [] | Some p \<Rightarrow> p) of
        Inl err \<Rightarrow> Some (Stop (Halts PanicNilFile), st, rs, [])
      | Inr file \<Rightarrow>
          (case fileLoop lim ident idx file (st\<lparr>pos := 0\<rparr>) rs of
             None \<Rightarrow> None
           | Some (Break, st', rs', xs) \<Rightarrow>
               (case filesLoop lim fs ident filesPaths (Suc idx) rest st' rs' of
                  None \<Rightarrow> None
                | Some (e, st'', rs'', ys) \<Rightarrow> Some (e, st'', rs'', xs @ ys))
           | Some (Stop e, st', rs', xs) \<Rightarrow> Some (Stop e, st', rs', xs)))"

definition uploadFiles ::
  "limits \<Rightarrow> filesystem \<Rightarrow> globals \<Rightarrow> string \<Rightarrow> (string \<rightharpoonup> string) \<Rightarrow> string list \<Rightarrow> reply list
    \<Rightarrow> error option result io" where
  "uploadFiles lim fs g ident filesPaths uploadOrder rs =
     (if makeFails lim (chunkSize g) then Some (Halts PanicMakeSlice, g, rs, [])
      else
        case filesLoop lim fs ident filesPaths 0 uploadOrder
               \<lparr>glob = g, buffer = nat (chunkSize g), offset = 0, pos = 0\<rparr> rs of
          None \<Rightarrow> None
        | Some (Break, st, rs', xs) \<Rightarrow> Some (Returns None, glob st, rs', xs)
        | Some (Stop e, st, rs', xs) \<Rightarrow> Some (e, glob st, rs', xs))"

subsection \<open>Retry loop\<close>

text \<open>
  One pass through the body of the \<open>for\<close> loop of \<open>UploadVideo\<close> and of \<open>UploadModel\<close>
  ends in one of three ways: the function returns after "Upload successful", the loop
  goes on to the next trial, or the process ends inside the body.
\<close>

datatype attempt = Succeeded | Failed | Halted halt

definition videoAttempt :: "limits \<Rightarrow> filesystem \<Rightarrow> string \<Rightarrow> globals \<Rightarrow> reply list \<Rightarrow> attempt io" where
  "videoAttempt lim fs videoPath g rs =
     (case updateUploadURL g rs of
        None \<Rightarrow> None
      | Some (Halts h, g1, rs1, xs1) \<Rightarrow> Some (Halted h, g1, rs1, xs1)
      | Some (Returns (Some err), g1, rs1, xs1) \<Rightarrow>
          (case updateMasterURL g1 of
             Halts h \<Rightarrow> Some (Halted h, g1, rs1, xs1)
           | Returns g2 \<Rightarrow> Some (Failed, g2, rs1, xs1))
      | Some (Returns None, g1, rs1, xs1) \<Rightarrow>
          (case sendVideoInitialRequest fs g1 videoPath rs1 of
             None \<Rightarrow> None
           | Some (Halts h, g2, rs2, xs2) \<Rightarrow> Some (Halted h, g2, rs2, xs1 @ xs2)
           | Some (Returns (ident, Some err), g2, rs2, xs2) \<Rightarrow> Some (Failed, g2, rs2, xs1 @ xs2)
           | Some (Returns (ident, None), g2, rs2, xs2) \<Rightarrow>
               (case uploadFiles lim fs g2 ident [''video'' \<mapsto> videoPath] [''video''] rs2 of
                  None \<Rightarrow> None
                | Some (Halts h, g3, rs3, xs3) \<Rightarrow> Some (Halted h, g3, rs3, xs1 @ xs2 @ xs3)
                | Some (Returns None, g3, rs3, xs3) \<Rightarrow> Some (Succeeded, g3, rs3, xs1 @ xs2 @ xs3)
                | Some (Returns (Some err), g3, rs3, xs3) \<Rightarrow>
                    Some (Failed, g3, rs3, xs1 @ xs2 @ xs3))))"

definition modelAttempt ::
  "limits \<Rightarrow> filesystem \<Rightarrow> string \<Rightarrow> string \<Rightarrow> string \<Rightarrow> globals \<Rightarrow> reply list \<Rightarrow> attempt io" where
  "modelAttempt lim fs modelPath configPath codePath g rs =
     (case updateUploadURL g rs of
        None \<Rightarrow> None
      | Some (Halts h, g1, rs1, xs1) \<Rightarrow> Some (Halted h, g1, rs1, xs1)
      | Some (Returns (Some err), g1, rs1, xs1) \<Rightarrow>
          (case updateMasterURL g1 of
             Halts h \<Rightarrow> Some (Halted h, g1, rs1, xs1)
           | Returns g2 \<Rightarrow> Some (Failed, g2, rs1, xs1))
      | Some (Returns None, g1, rs1, xs1) \<Rightarrow>
          (case sendModelInitialRequest fs g1 modelPath configPath codePath rs1 of
             None \<Rightarrow> None
           | Some (Halts h, g2, rs2, xs2) \<Rightarrow> Some (Halted h, g2, rs2, xs1 @ xs2)
           | Some (Returns (modelID, Some err), g2, rs2, xs2) \<Rightarrow>
               Some (Failed, g2, rs2, xs1 @ xs2)
           | Some (Returns (modelID, None), g2, rs2, xs2) \<Rightarrow>
               (case uploadFiles lim fs g2 modelID
                       [''model'' \<mapsto> modelPath, ''config'' \<mapsto> configPath, ''code'' \<mapsto> codePath]
                       modelUploadOrder rs2 of
                  None \<Rightarrow> None
                | Some (Halts h, g3, rs3, xs3) \<Rightarrow> Some (Halted h, g3, rs3, xs1 @ xs2 @ xs3)
                | Some (Returns (Some err), g3, rs3, xs3) \<Rightarrow>
                    Some (Failed, g3, rs3, xs1 @ xs2 @ xs3)
                | Some (Returns None, g3, rs3, xs3) \<Rightarrow>
                    Some (Succeeded, g3, rs3, xs1 @ xs2 @ xs3))))"

text \<open>
  The loop \<open>for trial := 0; trial <= defaultMaxRetries; trial++\<close>, which both functions
  run around their body, and the \<open>log.Fatal("File not uploaded")\<close> after it. Beside the
  outcome it returns the exchanges in order and how each pass through the body ended.
\<close>

type_synonym run = "(unit result \<times> globals \<times> reply list \<times> exchange list \<times> attempt list) option"

function trials :: "(globals \<Rightarrow> reply list \<Rightarrow> attempt io) \<Rightarrow> nat \<Rightarrow> globals \<Rightarrow> reply list \<Rightarrow> run" where
  "trials body trial g rs =
     (if trial \<le> defaultMaxRetries then
        (case body g rs of
           None \<Rightarrow> None
         | Some (Succeeded, g', rs', xs) \<Rightarrow> Some (Returns (), g', rs', xs, [Succeeded])
         | Some (Halted h, g', rs', xs) \<Rightarrow> Some (Halts h, g', rs', xs, [Halted h])
         | Some (Failed, g', rs', xs) \<Rightarrow>
             (case trials body (trial + 1) g' rs' of
                None \<Rightarrow> None
              | Some (out, g'', rs'', ys, hist) \<Rightarrow> Some (out, g'', rs'', xs @ ys, Failed # hist)))
      else Some (Halts FatalNotUploaded, g, rs, [], []))"
  by pat_completeness auto
termination
  by (relation "measure (\<lambda>(body, trial, g, rs). Suc defaultMaxRetries - trial)") auto

declare trials.simps [simp del]

definition UploadVideo :: "limits \<Rightarrow> filesystem \<Rightarrow> string \<Rightarrow> globals \<Rightarrow> reply list \<Rightarrow> run" where
  "UploadVideo lim fs videoPath g rs = trials (videoAttempt lim fs videoPath) 0 g rs"

definition UploadModel ::
  "limits \<Rightarrow> filesystem \<Rightarrow> string \<Rightarrow> string \<Rightarrow> string \<Rightarrow> globals \<Rightarrow> reply list \<Rightarrow> run" where
  "UploadModel lim fs modelPath configPath codePath g rs =
     trials (modelAttempt lim fs modelPath configPath codePath) 0 g rs"

subsection \<open>Reading a run\<close>

text \<open>
  The properties below are stated on the exchanges of a run. These functions read them:
  which replies the transfer loop takes as a correction (by the conditions of its
  \<open>if\<close> chain), what a request carries, and what the chunk size and the offset are after
  a list of exchanges, starting from given values.
\<close>

fun correctedOffset :: "reply \<Rightarrow> int option" where
  "correctedOffset DoFails = None"
| "correctedOffset (Responds res) =
     (if StatusCode res \<noteq> 200 \<and> StatusCode res \<noteq> 201 \<and> Get (Header res) ''Offset'' \<noteq> []
      then Some (ParseInt (Get (Header res) ''Offset'')) else None)"

fun correctedSize :: "reply \<Rightarrow> int option" where
  "correctedSize DoFails = None"
| "correctedSize (Responds res) =
     (if StatusCode res \<noteq> 200 \<and> StatusCode res \<noteq> 201 \<and> Get (Header res) ''Offset'' = []
         \<and> Get (Header res) ''Max-Request-Size'' \<noteq> []
      then Some (ParseInt (Get (Header res) ''Max-Request-Size'')) else None)"

fun isDiscover :: "request \<Rightarrow> bool" where
  "isDiscover (Discover url) = True"
| "isDiscover (InitRequest url p t hs) = False"
| "isDiscover (Append url ident off b) = False"

fun bodyOf :: "request \<Rightarrow> string" where
  "bodyOf (Append url ident off b) = b"
| "bodyOf (Discover url) = []"
| "bodyOf (InitRequest url p t hs) = []"

fun offsetOf :: "request \<Rightarrow> int" where
  "offsetOf (Append url ident off b) = off"
| "offsetOf (Discover url) = 0"
| "offsetOf (InitRequest url p t hs) = 0"

fun sizeCorrection :: "exchange \<Rightarrow> int option" where
  "sizeCorrection (Append url ident off b, r) = correctedSize r"
| "sizeCorrection (Discover url, r) = None"
| "sizeCorrection (InitRequest url p t hs, r) = None"

fun offsetCorrection :: "exchange \<Rightarrow> int option" where
  "offsetCorrection (Append url ident off b, r) = correctedOffset r"
| "offsetCorrection (Discover url, r) = None"
| "offsetCorrection (InitRequest url p t hs, r) = None"

definition sizeStep :: "int \<Rightarrow> exchange \<Rightarrow> int" where
  "sizeStep b x = (case sizeCorrection x of None \<Rightarrow> b | Some n \<Rightarrow> n)"

fun bounded :: "int \<Rightarrow> exchange list \<Rightarrow> bool" where
  "bounded b [] = True"
| "bounded b (x # xs) = (int (length (bodyOf (fst x))) \<le> b \<and> bounded (sizeStep b x) xs)"

definition sizeAfter :: "int \<Rightarrow> exchange list \<Rightarrow> int" where
  "sizeAfter b xs = foldl sizeStep b xs"

definition acknowledged :: "reply \<Rightarrow> bool" where
  "acknowledged r = (case r of DoFails \<Rightarrow> False | Responds res \<Rightarrow> StatusCode res = 200)"

definition offsetStep :: "int \<Rightarrow> exchange \<Rightarrow> int" where
  "offsetStep off x =
     (if acknowledged (snd x) then wrap64 (off + int (length (bodyOf (fst x))))
      else case offsetCorrection x of None \<Rightarrow> off | Some n \<Rightarrow> n)"

fun follows :: "int \<Rightarrow> exchange list \<Rightarrow> bool" where
  "follows off [] = True"
| "follows off (x # xs) = (offsetOf (fst x) = off \<and> follows (offsetStep off x) xs)"

definition offsetAfter :: "int \<Rightarrow> exchange list \<Rightarrow> int" where
  "offsetAfter off xs = foldl offsetStep off xs"

text \<open>
  The appends among the exchanges, the session identifier an append carries, and
  whether every reply to an init request among the exchanges is without
  \<open>Max-Request-Size\<close>.
\<close>

fun isAppend :: "request \<Rightarrow> bool" where
  "isAppend (Append url ident off b) = True"
| "isAppend (Discover url) = False"
| "isAppend (InitRequest url p t hs) = False"


definition appendsOf :: "exchange list \<Rightarrow> exchange list" where
  "appendsOf xs = filter (\<lambda>x. isAppend (fst x)) xs"




text \<open>
  \<open>replay body k g rs\<close> runs the body of the loop \<open>k\<close> times in a row, each time from
  the globals and the replies the time before left, whatever the outcomes: the outcomes
  in order, and the globals, replies and exchanges at the end.
\<close>

fun replay ::
  "(globals \<Rightarrow> reply list \<Rightarrow> attempt io) \<Rightarrow> nat \<Rightarrow> globals \<Rightarrow> reply list
    \<Rightarrow> (attempt list \<times> globals \<times> reply list \<times> exchange list) option" where
  "replay body 0 g rs = Some ([], g, rs, [])"
| "replay body (Suc k) g rs =
     (case body g rs of
        None \<Rightarrow> None
      | Some (a, g', rs', xs) \<Rightarrow>
          (case replay body k g' rs' of
             None \<Rightarrow> None
           | Some (as, g'', rs'', ys) \<Rightarrow> Some (a # as, g'', rs'', xs @ ys)))"

text \<open>The number of requests to a master among the exchanges.\<close>

definition discoveries :: "exchange list \<Rightarrow> nat" where
  "discoveries xs = length (filter (\<lambda>x. isDiscover (fst x)) xs)"

subsection \<open>Sample inputs\<close>

definition pool3 :: globals where
  "pool3 = \<lparr>chunkSize = 4194304, masterURL = ''m0'', uploadURL = [],
            mastersURLS = [''m0'', ''m1'', ''m2''], lastUsedMaster = 0\<rparr>"

definition host :: limits where
  "host = \<lparr>maxSeek = 2 ^ 44, maxAlloc = 2 ^ 40\<rparr>"

definition videoFs :: filesystem where
  "videoFs = [''v.mp4'' \<mapsto> RegularFile ''abc'']"

definition answer :: "int \<Rightarrow> (string \<times> string) list \<Rightarrow> reply" where
  "answer s h = Responds \<lparr>StatusCode = s, Header = h, Body = Some ''node''\<rparr>"

definition modelFs :: filesystem where
  "modelFs = [''m.bin'' \<mapsto> RegularFile ''ab'', ''m.cfg'' \<mapsto> RegularFile ''c'',
              ''m.py'' \<mapsto> RegularFile ''d'']"

definition brokenFs :: filesystem where
  "brokenFs = [''dir'' \<mapsto> Directory 4096, ''locked'' \<mapsto> NoAccess 3]"

definition twoBytes :: transfer where
  "twoBytes = \<lparr>glob = pool3, buffer = 2, offset = 0, pos = 0\<rparr>"

definition offsetOnly :: response where
  "offsetOnly = \<lparr>StatusCode = 409, Header = [(''Offset'', ''1'')], Body = Some ''node''\<rparr>"


section \<open>Properties\<close>

subsection \<open>Master rotation\<close>

lemma smod_nonneg: "0 \<le> a \<Longrightarrow> 0 < b \<Longrightarrow> a smod b = a mod (b::int)"
  by (cases "a = 0") (simp_all add: signed_modulo_int_def)

lemma wrap64_id: "- (2 ^ 63) \<le> x \<Longrightarrow> x < 2 ^ 63 \<Longrightarrow> wrap64 x = x"
  by (simp add: wrap64_def)

lemma updateMasterURL_in_range:
  assumes "mastersURLS g \<noteq> []" and "- 1 \<le> lastUsedMaster g" and "lastUsedMaster g < 2 ^ 63 - 1"
  shows "updateMasterURL g =
           Returns (g\<lparr>lastUsedMaster := (lastUsedMaster g + 1) mod int (length (mastersURLS g)),
                      masterURL := mastersURLS g !
                        nat ((lastUsedMaster g + 1) mod int (length (mastersURLS g)))\<rparr>)"
proof -
  let ?n = "int (length (mastersURLS g))"
  have n: "0 < ?n" using assms(1) by simp
  have w: "wrap64 (lastUsedMaster g + 1) = lastUsedMaster g + 1"
    using assms(2,3) by (intro wrap64_id) auto
  have sm: "wrap64 (lastUsedMaster g + 1) smod ?n = (lastUsedMaster g + 1) mod ?n"
    unfolding w using assms(2) n by (intro smod_nonneg) auto
  have "0 \<le> (lastUsedMaster g + 1) mod ?n" and "(lastUsedMaster g + 1) mod ?n < ?n"
    using n by simp_all
  then have b: "\<not> ((lastUsedMaster g + 1) mod ?n < 0 \<or> ?n \<le> (lastUsedMaster g + 1) mod ?n)"
    by linarith
  show ?thesis
    unfolding updateMasterURL_def Let_def sm using assms(1) b by (simp only: length_0_conv if_False)
qed

lemma rotations_closed_form:
  "mastersURLS g \<noteq> [] \<Longrightarrow> int (length (mastersURLS g)) < 2 ^ 63 \<Longrightarrow>
   - 1 \<le> lastUsedMaster g \<Longrightarrow> lastUsedMaster g < int (length (mastersURLS g)) \<Longrightarrow>
   rotations k g =
     map (\<lambda>j. (lastUsedMaster g + 1 + int j) mod int (length (mastersURLS g))) [0..<k]"
proof (induction k arbitrary: g)
  case 0
  then show ?case by simp
next
  case (Suc k)
  let ?n = "int (length (mastersURLS g))"
  let ?g = "g\<lparr>lastUsedMaster := (lastUsedMaster g + 1) mod ?n,
               masterURL := mastersURLS g ! nat ((lastUsedMaster g + 1) mod ?n)\<rparr>"
  have n: "0 < ?n" using Suc.prems(1) by simp
  have top: "lastUsedMaster g < 2 ^ 63 - 1"
    using Suc.prems(2,4) by linarith
  have step: "updateMasterURL g = Returns ?g"
    using Suc.prems(1,3) top by (rule updateMasterURL_in_range)
  have ge: "- 1 \<le> lastUsedMaster ?g"
    using n by (simp add: order_trans [of "- 1" 0])
  have lt: "lastUsedMaster ?g < int (length (mastersURLS ?g))"
    using n by simp
  have "rotations k ?g =
          map (\<lambda>j. (lastUsedMaster ?g + 1 + int j) mod int (length (mastersURLS ?g))) [0..<k]"
    using Suc.prems(1,2) ge lt by (intro Suc.IH) simp_all
  also have "\<dots> = map (\<lambda>j. (lastUsedMaster g + 1 + int (Suc j)) mod ?n) [0..<k]"
  proof (rule map_cong [OF refl])
    fix j
    have "((lastUsedMaster g + 1) mod ?n + (1 + int j)) mod ?n
            = (lastUsedMaster g + 1 + (1 + int j)) mod ?n"
      by (rule mod_add_left_eq)
    then show "(lastUsedMaster ?g + 1 + int j) mod int (length (mastersURLS ?g))
          = (lastUsedMaster g + 1 + int (Suc j)) mod ?n"
      by (simp add: algebra_simps)
  qed
  finally have tl: "rotations k ?g =
      map (\<lambda>j. (lastUsedMaster g + 1 + int (Suc j)) mod ?n) [0..<k]" .
  have "[0..<Suc k] = 0 # map Suc [0..<k]"
    by (simp add: upt_conv_Cons map_Suc_upt del: upt_Suc)
  then show ?case
    using step tl by (simp add: o_def del: upt_Suc)
qed

lemma shifted_mod_inj:
  fixes c :: int
  shows "inj_on (\<lambda>j. (c + int j) mod int n) {0..<n}"
proof (rule inj_onI)
  fix i j assume i: "i \<in> {0..<n}" and j: "j \<in> {0..<n}"
    and eq: "(c + int i) mod int n = (c + int j) mod int n"
  from eq have "int i mod int n = int j mod int n"
    by (metis mod_add_left_eq add_diff_cancel_left' mod_diff_cong)
  with i j show "i = j" by simp
qed

lemma shifted_mod_range:
  fixes c :: int
  shows "(\<lambda>j. (c + int j) mod int n) ` {0..<n} = {0..<int n}"
proof (rule card_subset_eq[OF _ _ _])
  show "finite {0..<int n}" by simp
  show "(\<lambda>j. (c + int j) mod int n) ` {0..<n} \<subseteq> {0..<int n}"
    by (cases "n = 0") auto
  show "card ((\<lambda>j. (c + int j) mod int n) ` {0..<n}) = card {0..<int n}"
    by (simp add: card_image shifted_mod_inj)
qed

text \<open>
  \<open>main\<close> leaves the cursor at 0, on the first master; \<open>pool3\<close> is what it leaves for
  three masters.
\<close>

lemma startup_cursor:
  "args \<noteq> [] \<Longrightarrow>
     startup args = Returns (initial\<lparr>mastersURLS := args, lastUsedMaster := 0,
                                     masterURL := args ! 0\<rparr>)"
  by (simp add: startup_def initial_def updateMasterURL_def wrap64_def signed_modulo_int_def)

lemma startup_pool3: "startup [''m0'', ''m1'', ''m2''] = Returns pool3"
  by (simp add: startup_cursor initial_def pool3_def)

text \<open>
  C6. Let the pool be non-empty (its length, that of a Go slice, is below \<open>2^63\<close>) and
  the cursor be \<open>-1\<close>, its initial value, or an index of the pool. \<open>updateMasterURL\<close>
  moves the cursor to the next index modulo the pool size, which is again an index of the
  pool, and selects the master stored there. \<open>N\<close> calls in a row over a pool of \<open>N\<close>
  masters select \<open>N\<close> pairwise different indices, which are all the indices of the pool;
  the call after them selects the first of them again.
\<close>

theorem master_rotation_round_robin:
  assumes "mastersURLS g \<noteq> []" and "int (length (mastersURLS g)) < 2 ^ 63"
    and "- 1 \<le> lastUsedMaster g" and "lastUsedMaster g < int (length (mastersURLS g))"
  shows "(\<exists>g'. updateMasterURL g = Returns g'
            \<and> lastUsedMaster g' = (lastUsedMaster g + 1) mod int (length (mastersURLS g))
            \<and> 0 \<le> lastUsedMaster g' \<and> lastUsedMaster g' < int (length (mastersURLS g))
            \<and> masterURL g' = mastersURLS g ! nat (lastUsedMaster g')
            \<and> mastersURLS g' = mastersURLS g)
       \<and> length (rotations (length (mastersURLS g)) g) = length (mastersURLS g)
       \<and> distinct (rotations (length (mastersURLS g)) g)
       \<and> set (rotations (length (mastersURLS g)) g) = {0..<int (length (mastersURLS g))}
       \<and> rotations (Suc (length (mastersURLS g))) g ! length (mastersURLS g)
           = rotations (Suc (length (mastersURLS g))) g ! 0"
proof -
  let ?n = "length (mastersURLS g)"
  let ?f = "\<lambda>j. (lastUsedMaster g + 1 + int j) mod int ?n"
  have closed: "rotations k g = map ?f [0..<k]" for k
    using assms by (rule rotations_closed_form)
  have top: "lastUsedMaster g < 2 ^ 63 - 1"
    using assms(2,4) by linarith
  have n: "0 < int ?n" using assms(1) by simp
  have "0 \<le> (lastUsedMaster g + 1) mod int ?n" and "(lastUsedMaster g + 1) mod int ?n < int ?n"
    using n by simp_all
  then have one: "\<exists>g'. updateMasterURL g = Returns g'
            \<and> lastUsedMaster g' = (lastUsedMaster g + 1) mod int ?n
            \<and> 0 \<le> lastUsedMaster g' \<and> lastUsedMaster g' < int ?n
            \<and> masterURL g' = mastersURLS g ! nat (lastUsedMaster g')
            \<and> mastersURLS g' = mastersURLS g"
    by (simp add: updateMasterURL_in_range [OF assms(1,3) top])
  have len: "length (rotations ?n g) = ?n"
    by (simp add: closed)
  have "inj_on ?f {0..<?n}"
    using shifted_mod_inj [of "lastUsedMaster g + 1" ?n] by simp
  then have dist: "distinct (rotations ?n g)"
    by (simp add: closed distinct_map)
  have all: "set (rotations ?n g) = {0..<int ?n}"
    using shifted_mod_range [of "lastUsedMaster g + 1" ?n] by (simp add: closed)
  have "map ?f [0..<Suc ?n] ! ?n = ?f (0 + ?n)"
    by (rule nth_map_upt) simp
  moreover have "map ?f [0..<Suc ?n] ! 0 = ?f (0 + 0)"
    by (rule nth_map_upt) simp
  moreover have "?f (0 + ?n) = ?f (0 + 0)"
    by simp
  ultimately have again: "rotations (Suc ?n) g ! ?n = rotations (Suc ?n) g ! 0"
    by (simp only: closed)
  from one len dist all again show ?thesis
    by blast
qed

theorem master_rotation_round_robin_witness:
  "mastersURLS pool3 \<noteq> [] \<and> int (length (mastersURLS pool3)) < 2 ^ 63
   \<and> - 1 \<le> lastUsedMaster pool3 \<and> lastUsedMaster pool3 < int (length (mastersURLS pool3))
   \<and> rotations 3 pool3 = [1, 2, 0]
   \<and> distinct (rotations (length (mastersURLS pool3)) pool3)
   \<and> set (rotations (length (mastersURLS pool3)) pool3) = {0..<3}"
proof -
  have a: "mastersURLS pool3 \<noteq> []" and b: "int (length (mastersURLS pool3)) < 2 ^ 63"
    and c: "- 1 \<le> lastUsedMaster pool3"
    and d: "lastUsedMaster pool3 < int (length (mastersURLS pool3))"
    by (simp_all add: pool3_def)
  have r: "rotations 3 pool3 = [1, 2, 0]"
    by (simp add: pool3_def numeral_3_eq_3 updateMasterURL_def wrap64_def signed_modulo_int_def)
  have "length (mastersURLS pool3) = 3"
    by (simp add: pool3_def)
  with master_rotation_round_robin [OF a b c d] a b c d r show ?thesis
    by simp
qed

subsection \<open>Chunk sizes and offsets along a run\<close>

lemmas run_eval =
  uploadFiles_def fileLoop.simps videoFs_def answer_def pool3_def Open_def Read_def Seek_def
  Get_def sent_def modelUploadOrder_def Let_def wrap64_def makeFails_def host_def
  ParseInt_def ParseUint_def isDigit_def digitVal_def maxUint64_def

lemma Read_length: "Read f p n = Inr chunk \<Longrightarrow> length chunk \<le> n"
  by (auto simp: Read_def split: if_splits node.splits)

lemma fileLoop_bounded:
  "fileLoop lim ident idx file st rs = Some (e, st', rs', xs) \<Longrightarrow>
     bounded (int (buffer st)) xs
     \<and> (e = Break \<longrightarrow> int (buffer st') = sizeAfter (int (buffer st)) xs)"
proof (induction rs arbitrary: st e st' rs' xs)
  case Nil
  then show ?case
    by (subst (asm) fileLoop.simps) (auto simp: sizeAfter_def split: sum.splits if_splits)
next
  case (Cons r rs)
  show ?case
  proof (cases "Read file (pos st) (buffer st)")
    case (Inl err)
    with Cons.prems show ?thesis
      by (subst (asm) fileLoop.simps) (auto simp: sizeAfter_def split: if_splits)
  next
    case (Inr chunk)
    have len: "int (length chunk) \<le> int (buffer st)"
      using Read_length [OF Inr] by simp
    show ?thesis
    proof (cases r)
      case DoFails
      with Cons.prems Inr len show ?thesis
        by (subst (asm) fileLoop.simps) (auto simp: Let_def sizeAfter_def sizeStep_def)
    next
      case (Responds res)
      note IH = Cons.IH
      from Cons.prems Inr Responds len show ?thesis
        apply (subst (asm) fileLoop.simps)
        apply (simp add: Let_def sent_def sizeAfter_def sizeStep_def makeFails_def split: if_splits option.splits prod.splits)
        apply (auto dest!: IH simp: sizeAfter_def sizeStep_def)
        done
    qed
  qed
qed


lemma bounded_append: "bounded b (xs @ ys) = (bounded b xs \<and> bounded (sizeAfter b xs) ys)"
  by (induction xs arbitrary: b) (simp_all add: sizeAfter_def)

lemma sizeAfter_append: "sizeAfter b (xs @ ys) = sizeAfter (sizeAfter b xs) ys"
  by (simp add: sizeAfter_def)

lemma filesLoop_bounded:
  "filesLoop lim fs ident filesPaths idx order st rs = Some (e, st', rs', xs) \<Longrightarrow>
     bounded (int (buffer st)) xs"
proof (induction order arbitrary: idx st rs e st' rs' xs)
  case Nil
  then show ?case by simp
next
  case (Cons fileName rest)
  from Cons.prems show ?case
    apply (simp split: sum.splits option.splits prod.splits flow.splits)
    apply (auto dest!: fileLoop_bounded Cons.IH simp: bounded_append)
    done
qed

lemma uploadFiles_bounded:
  "uploadFiles lim fs g ident filesPaths order rs = Some (e, g', rs', xs) \<Longrightarrow> bounded (chunkSize g) xs"
  by (auto simp: uploadFiles_def makeFails_def split: if_splits option.splits prod.splits flow.splits
           dest!: filesLoop_bounded)

lemma bounded_mono_prefix:
  "bounded b xs \<Longrightarrow> j < length xs \<Longrightarrow> (\<forall>k<j. sizeCorrection (xs ! k) = None) \<Longrightarrow>
     int (length (bodyOf (fst (xs ! j)))) \<le> b"
proof (induction xs arbitrary: j)
  case Nil
  then show ?case by simp
next
  case (Cons x xs)
  show ?case
  proof (cases j)
    case 0
    with Cons.prems show ?thesis by simp
  next
    case (Suc j')
    from Cons.prems(3) Suc have x: "sizeCorrection x = None" by auto
    from Cons.prems(3) Suc have "\<forall>k<j'. sizeCorrection (xs ! k) = None" by auto
    with Cons.IH [of j'] Cons.prems(1,2) Suc x show ?thesis
      by (simp add: sizeStep_def)
  qed
qed

lemma bounded_after_correction:
  "bounded b xs \<Longrightarrow> i < j \<Longrightarrow> j < length xs \<Longrightarrow> sizeCorrection (xs ! i) = Some n \<Longrightarrow>
   (\<forall>k. i < k \<and> k < j \<longrightarrow> sizeCorrection (xs ! k) = None) \<Longrightarrow>
     int (length (bodyOf (fst (xs ! j)))) \<le> n"
proof (induction xs arbitrary: b i j)
  case Nil
  then show ?case by simp
next
  case (Cons x xs)
  obtain j' where j: "j = Suc j'" using Cons.prems(2) by (cases j) auto
  show ?case
  proof (cases i)
    case 0
    with Cons.prems j have b: "bounded n xs" and "j' < length xs"
      and "\<forall>k<j'. sizeCorrection (xs ! k) = None"
      by (auto simp: sizeStep_def)
    then show ?thesis using bounded_mono_prefix [of n xs j'] j by simp
  next
    case (Suc i')
    from Cons.prems(5) Suc j
    have "\<forall>k. i' < k \<and> k < j' \<longrightarrow> sizeCorrection (xs ! k) = None"
      by (metis Suc_less_eq nth_Cons_Suc)
    with Cons.IH [of "sizeStep b x" i' j'] Cons.prems Suc j show ?thesis
      by simp
  qed
qed

lemma fileLoop_follows:
  "fileLoop lim ident idx file st rs = Some (e, st', rs', xs) \<Longrightarrow>
     follows (offset st) xs \<and> offset st' = offsetAfter (offset st) xs
     \<and> chunkSize (glob st') = sizeAfter (chunkSize (glob st)) xs"
proof (induction rs arbitrary: st e st' rs' xs)
  case Nil
  then show ?case
    by (subst (asm) fileLoop.simps) (auto simp: sizeAfter_def offsetAfter_def split: sum.splits if_splits)
next
  case (Cons r rs)
  show ?case
  proof (cases "Read file (pos st) (buffer st)")
    case (Inl err)
    with Cons.prems show ?thesis
      by (subst (asm) fileLoop.simps) (auto simp: sizeAfter_def offsetAfter_def split: if_splits)
  next
    case (Inr chunk)
    show ?thesis
    proof (cases r)
      case DoFails
      with Cons.prems Inr show ?thesis
        by (subst (asm) fileLoop.simps)
           (auto simp: Let_def sizeAfter_def sizeStep_def offsetAfter_def offsetStep_def acknowledged_def)
    next
      case (Responds res)
      note IH = Cons.IH
      from Cons.prems Inr Responds show ?thesis
        apply (subst (asm) fileLoop.simps)
        apply (simp add: Let_def sent_def makeFails_def split: if_splits option.splits prod.splits)
        apply (auto dest!: IH simp: sizeAfter_def sizeStep_def offsetAfter_def offsetStep_def acknowledged_def)
        done
    qed
  qed
qed


lemma follows_append:
  "follows off (xs @ ys) = (follows off xs \<and> follows (offsetAfter off xs) ys)"
  by (induction xs arbitrary: off) (simp_all add: offsetAfter_def)

lemma filesLoop_follows:
  "filesLoop lim fs ident filesPaths idx order st rs = Some (e, st', rs', xs) \<Longrightarrow>
     follows (offset st) xs \<and> chunkSize (glob st') = sizeAfter (chunkSize (glob st)) xs"
proof (induction order arbitrary: idx st rs e st' rs' xs)
  case Nil
  then show ?case by (simp add: sizeAfter_def)
next
  case (Cons fileName rest)
  from Cons.prems show ?case
    apply (simp split: sum.splits option.splits prod.splits flow.splits)
      apply (auto dest!: fileLoop_follows Cons.IH
                  simp: follows_append sizeAfter_append sizeAfter_def)
    done
qed

text \<open>
  C9. In a run of \<open>uploadFiles\<close>, let exchange \<open>i\<close> be an append whose reply is a
  chunk-size correction to \<open>n\<close> (status not 200 or 201, no \<open>Offset\<close>, a
  \<open>Max-Request-Size\<close> that parses to \<open>n\<close>), and let no exchange between \<open>i\<close> and a later
  exchange \<open>j\<close> be such a correction. Then the body of request \<open>j\<close> has at most \<open>n\<close> bytes.
\<close>

theorem chunk_bound_after_correction:
  assumes "uploadFiles lim fs g ident filesPaths uploadOrder rs = Some (e, g', rs', xs)"
    and "i < j" and "j < length xs"
    and "sizeCorrection (xs ! i) = Some n"
    and "\<forall>k. i < k \<and> k < j \<longrightarrow> sizeCorrection (xs ! k) = None"
  shows "int (length (bodyOf (fst (xs ! j)))) \<le> n"
proof -
  have "bounded (chunkSize g) xs"
    using assms(1) by (rule uploadFiles_bounded)
  then show ?thesis
    using assms(2-5) by (rule bounded_after_correction)
qed

theorem chunk_bound_after_correction_witness:
  "uploadFiles host videoFs pool3 ''s1'' [''video'' \<mapsto> ''v.mp4''] [''video'']
       [answer 413 [(''Max-Request-Size'', ''2'')], answer 200 [], answer 201 []]
     = Some (Returns None, pool3\<lparr>chunkSize := 2\<rparr>, [],
         [(Append [] ''s1'' 0 ''abc'', answer 413 [(''Max-Request-Size'', ''2'')]),
          (Append [] ''s1'' 0 ''ab'', answer 200 []),
          (Append [] ''s1'' 2 ''c'', answer 201 [])])
   \<and> sizeCorrection (Append [] ''s1'' 0 ''abc'', answer 413 [(''Max-Request-Size'', ''2'')]) = Some 2
   \<and> int (length (bodyOf (Append [] ''s1'' 2 ''c''))) \<le> 2"
proof -
  let ?xs = "[(Append [] ''s1'' 0 ''abc'', answer 413 [(''Max-Request-Size'', ''2'')]),
              (Append [] ''s1'' 0 ''ab'', answer 200 []),
              (Append [] ''s1'' 2 ''c'', answer 201 [])]"
  have run: "uploadFiles host videoFs pool3 ''s1'' [''video'' \<mapsto> ''v.mp4''] [''video'']
       [answer 413 [(''Max-Request-Size'', ''2'')], answer 200 [], answer 201 []]
     = Some (Returns None, pool3\<lparr>chunkSize := 2\<rparr>, [], ?xs)"
    by (simp add: run_eval)
  have c: "sizeCorrection (?xs ! 0) = Some 2"
    by (simp add: run_eval)
  have q: "\<forall>k. 0 < k \<and> k < 2 \<longrightarrow> sizeCorrection (?xs ! k) = None"
  proof (intro allI impI)
    fix k :: nat assume "0 < k \<and> k < 2"
    then have "k = 1" by arith
    then show "sizeCorrection (?xs ! k) = None" by (simp add: run_eval)
  qed
  have "int (length (bodyOf (fst (?xs ! 2)))) \<le> 2"
    using chunk_bound_after_correction [OF run _ _ c q] by simp
  with run c show ?thesis by simp
qed

lemma uploadFiles_follows:
  "uploadFiles lim fs g ident filesPaths order rs = Some (e, g', rs', xs) \<Longrightarrow>
     follows 0 xs \<and> chunkSize g' = sizeAfter (chunkSize g) xs"
  by (auto simp: uploadFiles_def sizeAfter_def split: if_splits option.splits prod.splits flow.splits
           dest!: filesLoop_follows)

lemma follows_next:
  "follows off xs \<Longrightarrow> Suc i < length xs \<Longrightarrow> offsetCorrection (xs ! i) = Some n \<Longrightarrow>
     \<not> acknowledged (snd (xs ! i)) \<Longrightarrow> offsetOf (fst (xs ! Suc i)) = n"
proof (induction xs arbitrary: off i)
  case Nil
  then show ?case by simp
next
  case (Cons x xs)
  show ?case
  proof (cases i)
    case 0
    with Cons.prems show ?thesis
      by (cases xs) (auto simp: offsetStep_def)
  next
    case (Suc i')
    with Cons.IH [of "offsetStep off x" i'] Cons.prems show ?thesis by simp
  qed
qed

lemma offsetCorrection_not_ack: "offsetCorrection x = Some n \<Longrightarrow> \<not> acknowledged (snd x)"
  by (cases x rule: offsetCorrection.cases) (auto simp: acknowledged_def split: reply.splits if_splits)


text \<open>
  What the \<open>Offset\<close> branch does, for any reply that reaches it: the next iteration runs
  with \<open>offset\<close> set to the parsed value and the file where \<open>Seek\<close> leaves it.
\<close>

lemma fileLoop_offset_branch:
  assumes "Read file (pos st) (buffer st) = Inr chunk"
    and "StatusCode res \<noteq> 200" and "StatusCode res \<noteq> 201"
    and "Get (Header res) ''Offset'' \<noteq> []"
  shows "fileLoop lim ident idx file st (Responds res # rs)
           = sent (Append (uploadURL (glob st)) ident (offset st) chunk, Responds res)
               (fileLoop lim ident idx file
                  (st\<lparr>offset := ParseInt (Get (Header res) ''Offset''),
                      pos := Seek lim (pos st + length chunk)
                               (ParseInt (Get (Header res) ''Offset''))\<rparr>) rs)"
  using assms by (subst fileLoop.simps) (simp add: Let_def)

lemma fileLoop_first_exchange:
  assumes "fileLoop lim ident idx file st (r # rs) = Some (e, st', rs', xs)"
    and "Read file (pos st) (buffer st) = Inr chunk"
  shows "\<exists>zs. xs = (Append (uploadURL (glob st)) ident (offset st) chunk, r) # zs"
  using assms
  by (subst (asm) fileLoop.simps)
     (auto simp: Let_def sent_def split: reply.splits if_splits option.splits)

lemma resync_then_read:
  assumes "Read file (pos st) (buffer st) = Inr chunk"
    and "StatusCode res \<noteq> 200" and "StatusCode res \<noteq> 201"
    and "Get (Header res) ''Offset'' \<noteq> []"
    and "n = ParseInt (Get (Header res) ''Offset'')" and "0 \<le> n" and "n \<le> maxSeek lim"
    and "Read file (nat n) (buffer st) = Inr chunk'"
    and "fileLoop lim ident idx file st (Responds res # r # rs) = Some (e, st', rs', xs)"
  shows "take 2 xs = [(Append (uploadURL (glob st)) ident (offset st) chunk, Responds res),
                      (Append (uploadURL (glob st)) ident n chunk', r)]"
proof -
  let ?st = "st\<lparr>offset := n, pos := nat n\<rparr>"
  have step: "fileLoop lim ident idx file st (Responds res # r # rs)
      = sent (Append (uploadURL (glob st)) ident (offset st) chunk, Responds res)
          (fileLoop lim ident idx file ?st (r # rs))"
    using fileLoop_offset_branch [OF assms(1-4), of lim ident idx "r # rs"] assms(5-7)
    by (simp add: Seek_def)
  from assms(9) obtain e1 st1 rs1 xs1 where
    nxt: "fileLoop lim ident idx file ?st (r # rs) = Some (e1, st1, rs1, xs1)"
    and xs: "xs = (Append (uploadURL (glob st)) ident (offset st) chunk, Responds res) # xs1"
    unfolding step by (auto simp: sent_def split: option.splits)
  have "Read file (pos ?st) (buffer ?st) = Inr chunk'"
    using assms(8) by simp
  from fileLoop_first_exchange [OF nxt this]
  obtain zs where "xs1 = (Append (uploadURL (glob st)) ident n chunk', r) # zs"
    by auto
  with xs show ?thesis
    by (simp add: numeral_2_eq_2)
qed




text \<open>
  C7, as stated, fails when the seek is refused, as it is for a negative \<open>Offset\<close>: the
  position stays behind the chunk that was just read, and the next request carries the
  bytes after it. With chunks of 2 bytes and the file \<open>abc\<close>, the reply \<open>Offset: -1\<close> to
  the chunk \<open>ab\<close> is followed by a request for \<open>c\<close>.
\<close>

theorem offset_resync_counterexample:
  "uploadFiles host videoFs (pool3\<lparr>chunkSize := 2\<rparr>) ''s1'' [''video'' \<mapsto> ''v.mp4'']
       [''video''] [answer 409 [(''Offset'', ''-1'')], answer 201 []]
     = Some (Returns None, pool3\<lparr>chunkSize := 2\<rparr>, [],
         [(Append [] ''s1'' 0 ''ab'', answer 409 [(''Offset'', ''-1'')]),
          (Append [] ''s1'' (- 1) ''c'', answer 201 [])])"
  by (simp add: run_eval)

text \<open>
  C7, amended. Let the reply to an append have a status other than 200 and 201 and carry
  \<open>Offset\<close>, parsed as \<open>n\<close>. In every run of \<open>uploadFiles\<close> the request after such a reply,
  if there is one, carries the offset \<open>n\<close>. When \<open>n\<close> is a position the seek accepts
  (not negative, not above the largest offset of the file system), the loop goes on with
  \<open>offset = n\<close> and the file at position \<open>n\<close>; if the file has bytes there, the next
  request carries the chunk read at \<open>n\<close>.
\<close>

theorem offset_resync:
  assumes "Read file (pos st) (buffer st) = Inr chunk"
    and "StatusCode res \<noteq> 200" and "StatusCode res \<noteq> 201"
    and "Get (Header res) ''Offset'' \<noteq> []"
    and "n = ParseInt (Get (Header res) ''Offset'')"
  shows "(0 \<le> n \<longrightarrow> n \<le> maxSeek lim \<longrightarrow>
            fileLoop lim ident idx file st (Responds res # rs)
              = sent (Append (uploadURL (glob st)) ident (offset st) chunk, Responds res)
                  (fileLoop lim ident idx file (st\<lparr>offset := n, pos := nat n\<rparr>) rs))
       \<and> (0 \<le> n \<longrightarrow> n \<le> maxSeek lim \<longrightarrow> Read file (nat n) (buffer st) = Inr chunk' \<longrightarrow>
            fileLoop lim ident idx file st (Responds res # r # rs) = Some (e, st', rs', xs) \<longrightarrow>
            take 2 xs = [(Append (uploadURL (glob st)) ident (offset st) chunk, Responds res),
                         (Append (uploadURL (glob st)) ident n chunk', r)])
       \<and> (uploadFiles lim fs g ident' filesPaths uploadOrder rs0 = Some (e0, g0, rs0', ys) \<longrightarrow>
            Suc i < length ys \<longrightarrow> offsetCorrection (ys ! i) = Some m \<longrightarrow>
            offsetOf (fst (ys ! Suc i)) = m)"
proof (intro conjI impI)
  assume n: "0 \<le> n" "n \<le> maxSeek lim"
  show "fileLoop lim ident idx file st (Responds res # rs)
              = sent (Append (uploadURL (glob st)) ident (offset st) chunk, Responds res)
                  (fileLoop lim ident idx file (st\<lparr>offset := n, pos := nat n\<rparr>) rs)"
    using fileLoop_offset_branch [OF assms(1-4), of lim ident idx rs] assms(5) n
    by (simp add: Seek_def)
next
  assume "0 \<le> n" and "n \<le> maxSeek lim" and "Read file (nat n) (buffer st) = Inr chunk'"
    and "fileLoop lim ident idx file st (Responds res # r # rs) = Some (e, st', rs', xs)"
  with assms show "take 2 xs
      = [(Append (uploadURL (glob st)) ident (offset st) chunk, Responds res),
         (Append (uploadURL (glob st)) ident n chunk', r)]"
    by (rule resync_then_read)
next
  assume "uploadFiles lim fs g ident' filesPaths uploadOrder rs0 = Some (e0, g0, rs0', ys)"
    and i: "Suc i < length ys" and c: "offsetCorrection (ys ! i) = Some m"
  then have "follows 0 ys" by (auto dest: uploadFiles_follows)
  then show "offsetOf (fst (ys ! Suc i)) = m"
    using i c offsetCorrection_not_ack [OF c] by (rule follows_next)
qed

theorem offset_resync_witness:
  "Read (RegularFile ''abc'') (pos twoBytes) (buffer twoBytes) = Inr ''ab''
   \<and> StatusCode offsetOnly \<noteq> 200 \<and> StatusCode offsetOnly \<noteq> 201
   \<and> Get (Header offsetOnly) ''Offset'' \<noteq> []
   \<and> 1 = ParseInt (Get (Header offsetOnly) ''Offset'')
   \<and> (0::int) \<le> 1 \<and> 1 \<le> maxSeek host
   \<and> Read (RegularFile ''abc'') (nat 1) (buffer twoBytes) = Inr ''bc''
   \<and> fileLoop host ''s1'' 0 (RegularFile ''abc'') twoBytes [Responds offsetOnly, answer 201 []]
       = Some (Stop (Returns None), twoBytes\<lparr>offset := 1, pos := 3\<rparr>, [],
           [(Append [] ''s1'' 0 ''ab'', Responds offsetOnly),
            (Append [] ''s1'' 1 ''bc'', answer 201 [])])
   \<and> take 2 [(Append [] ''s1'' 0 ''ab'', Responds offsetOnly),
              (Append [] ''s1'' 1 ''bc'', answer 201 [])]
       = [(Append (uploadURL (glob twoBytes)) ''s1'' (offset twoBytes) ''ab'', Responds offsetOnly),
          (Append (uploadURL (glob twoBytes)) ''s1'' 1 ''bc'', answer 201 [])]"
proof -
  have rd: "Read (RegularFile ''abc'') (pos twoBytes) (buffer twoBytes) = Inr ''ab''"
    by (simp add: Read_def twoBytes_def)
  have h: "StatusCode offsetOnly \<noteq> 200" "StatusCode offsetOnly \<noteq> 201"
    "Get (Header offsetOnly) ''Offset'' \<noteq> []"
    "1 = ParseInt (Get (Header offsetOnly) ''Offset'')"
    by (simp_all add: offsetOnly_def run_eval)
  have n: "(0::int) \<le> 1" "1 \<le> maxSeek host"
    by (simp_all add: host_def)
  have rd2: "Read (RegularFile ''abc'') (nat 1) (buffer twoBytes) = Inr ''bc''"
    by (simp add: Read_def twoBytes_def)
  note t = offset_resync [OF rd h, where lim = host and ident = "''s1''" and idx = 0]
  have run: "fileLoop host ''s1'' 0 (RegularFile ''abc'') twoBytes
               [Responds offsetOnly, answer 201 []]
       = Some (Stop (Returns None), twoBytes\<lparr>offset := 1, pos := 3\<rparr>, [],
           [(Append [] ''s1'' 0 ''ab'', Responds offsetOnly),
            (Append [] ''s1'' 1 ''bc'', answer 201 [])])"
    using t [THEN conjunct1, rule_format, OF n, of "[answer 201 []]"]
    by (simp add: run_eval twoBytes_def offsetOnly_def)
  have "take 2 [(Append [] ''s1'' 0 ''ab'', Responds offsetOnly),
              (Append [] ''s1'' 1 ''bc'', answer 201 [])]
       = [(Append (uploadURL (glob twoBytes)) ''s1'' (offset twoBytes) ''ab'', Responds offsetOnly),
          (Append (uploadURL (glob twoBytes)) ''s1'' 1 ''bc'', answer 201 [])]"
    using t [THEN conjunct2, THEN conjunct1, rule_format, OF n rd2 run] .
  with rd h n rd2 run show ?thesis by blast
qed

subsection \<open>What a trial leaves behind\<close>



lemma appendsOf_append: "appendsOf (xs @ ys) = appendsOf xs @ appendsOf ys"
  by (simp add: appendsOf_def)

lemma sizeAfter_appendsOf: "sizeAfter b (appendsOf xs) = sizeAfter b xs"
proof (induction xs arbitrary: b)
  case Nil
  then show ?case by (simp add: appendsOf_def)
next
  case (Cons x xs)
  show ?case
    using Cons.IH
    by (cases x rule: sizeCorrection.cases)
       (simp_all add: appendsOf_def sizeAfter_def sizeStep_def)
qed




lemma appendsOf_all: "\<forall>y \<in> set xs. isAppend (fst y) \<Longrightarrow> appendsOf xs = xs"
  by (simp add: appendsOf_def)








lemma trials_stop: "\<not> trial \<le> defaultMaxRetries \<Longrightarrow>
    trials body trial g rs = Some (Halts FatalNotUploaded, g, rs, [], [])"
  by (subst trials.simps) simp

lemma trials_succeeded:
  "trial \<le> defaultMaxRetries \<Longrightarrow> body g rs = Some (Succeeded, g', rs', xs) \<Longrightarrow>
     trials body trial g rs = Some (Returns (), g', rs', xs, [Succeeded])"
  by (subst trials.simps) simp

lemma trials_halted:
  "trial \<le> defaultMaxRetries \<Longrightarrow> body g rs = Some (Halted h, g', rs', xs) \<Longrightarrow>
     trials body trial g rs = Some (Halts h, g', rs', xs, [Halted h])"
  by (subst trials.simps) simp

lemma trials_failed:
  "trial \<le> defaultMaxRetries \<Longrightarrow> body g rs = Some (Failed, g', rs', xs) \<Longrightarrow>
     trials body trial g rs =
       (case trials body (trial + 1) g' rs' of
          None \<Rightarrow> None
        | Some (out, g'', rs'', ys, hist) \<Rightarrow> Some (out, g'', rs'', xs @ ys, Failed # hist))"
  by (subst trials.simps) simp

lemma trials_none:
  "trial \<le> defaultMaxRetries \<Longrightarrow> body g rs = None \<Longrightarrow> trials body trial g rs = None"
  by (subst trials.simps) simp


lemmas attempt_eval =
  videoAttempt_def modelAttempt_def updateUploadURL_def updateMasterURL_def
  sendVideoInitialRequest_def sendModelInitialRequest_def sendInitialRequest_def
  getFileSize_def Stat_def modelFs_def brokenFs_def






subsection \<open>Where the transfer reports success\<close>

text \<open>
  C1. The reply 400 carries neither \<open>Offset\<close> nor \<open>Max-Request-Size\<close>. \<open>uploadFiles\<close>
  leaves its loop and returns \<open>nil\<close>, and \<open>UploadVideo\<close> returns after "Upload successful".
\<close>

theorem hard_error_returns_nil:
  "uploadFiles host videoFs pool3 ''s1'' [''video'' \<mapsto> ''v.mp4''] [''video''] [answer 400 []]
     = Some (Returns None, pool3, [], [(Append [] ''s1'' 0 ''abc'', answer 400 [])])
   \<and> UploadVideo host videoFs ''v.mp4'' pool3
         [answer 200 [], answer 201 [(''ID'', ''s1'')], answer 400 []]
     = Some (Returns (), pool3\<lparr>uploadURL := ''node''\<rparr>, [],
         [(Discover ''m0'', answer 200 []),
          (InitRequest ''node'' ''v.mp4'' ''video'' [(''Filesize'', 3)], answer 201 [(''ID'', ''s1'')]),
          (Append ''node'' ''s1'' 0 ''abc'', answer 400 [])],
         [Succeeded])"
  by (simp add: UploadVideo_def trials.simps defaultMaxRetries_def attempt_eval run_eval)

text \<open>
  C2. The video manifest has one file, of index 0, and the end-of-file test compares the
  index with \<open>len(modelUploadOrder) - 1 = 2\<close>. Every chunk of the video is acknowledged
  with 200 and none with 201: at the end of the file the loop breaks and \<open>uploadFiles\<close>
  returns \<open>nil\<close>. The same replies to the three files of a model end in \<open>io.EOF\<close>.
\<close>

theorem video_end_of_file_returns_nil:
  "uploadFiles host videoFs pool3 ''s1'' [''video'' \<mapsto> ''v.mp4''] [''video''] [answer 200 []]
     = Some (Returns None, pool3, [], [(Append [] ''s1'' 0 ''abc'', answer 200 [])])
   \<and> uploadFiles host modelFs pool3 ''s1''
         [''model'' \<mapsto> ''m.bin'', ''config'' \<mapsto> ''m.cfg'', ''code'' \<mapsto> ''m.py'']
         modelUploadOrder [answer 200 [], answer 200 [], answer 200 []]
     = Some (Returns (Some EOF), pool3, [],
         [(Append [] ''s1'' 0 ''ab'', answer 200 []),
          (Append [] ''s1'' 2 ''c'', answer 200 []),
          (Append [] ''s1'' 3 ''d'', answer 200 [])])"
  by (simp add: run_eval modelFs_def)

text \<open>
  C3. The init reply carries \<open>Max-Request-Size: 2\<close>. The trial leaves \<open>chunkSize\<close> at
  4194304 and its first append carries the 3 bytes of the file.
\<close>

theorem init_chunk_size_not_adopted:
  "videoAttempt host videoFs ''v.mp4'' pool3
       [answer 200 [], answer 201 [(''ID'', ''s1''), (''Max-Request-Size'', ''2'')], answer 201 []]
     = Some (Succeeded, pool3\<lparr>uploadURL := ''node''\<rparr>, [],
         [(Discover ''m0'', answer 200 []),
          (InitRequest ''node'' ''v.mp4'' ''video'' [(''Filesize'', 3)],
           answer 201 [(''ID'', ''s1''), (''Max-Request-Size'', ''2'')]),
          (Append ''node'' ''s1'' 0 ''abc'', answer 201 [])])
   \<and> chunkSize (pool3\<lparr>uploadURL := ''node''\<rparr>) = 4194304"
  by (simp add: attempt_eval run_eval)

subsection \<open>The retry loop\<close>

lemma trials_shape:
  assumes "trials body trial g rs = Some (out, g', rs', xs, hist)"
    and "\<And>g rs a g' rs' xs. body g rs = Some (a, g', rs', xs) \<Longrightarrow> discoveries xs = 1"
  shows "length hist \<le> Suc defaultMaxRetries - trial
       \<and> discoveries xs = length hist
       \<and> (\<forall>a \<in> set (butlast hist). a = Failed)
       \<and> (out = Returns () \<longleftrightarrow> hist \<noteq> [] \<and> last hist = Succeeded)
       \<and> ((\<forall>a \<in> set hist. a = Failed) \<longrightarrow>
            out = Halts FatalNotUploaded \<and> length hist = Suc defaultMaxRetries - trial)"
  using assms(1)
proof (induction "Suc defaultMaxRetries - trial" arbitrary: trial g rs out g' rs' xs hist)
  case 0
  then have "\<not> trial \<le> defaultMaxRetries" by simp
  with "0.prems" show ?case
    by (auto simp: trials_stop discoveries_def)
next
  case (Suc n)
  then have le: "trial \<le> defaultMaxRetries" by simp
  show ?case
  proof (cases "body g rs")
    case None
    with Suc.prems le show ?thesis by (simp add: trials_none)
  next
    case (Some t)
    then obtain a g1 rs1 xs1 where b: "body g rs = Some (a, g1, rs1, xs1)"
      by (cases t) auto
    have d: "discoveries xs1 = 1" using b by (rule assms(2))
    show ?thesis
    proof (cases a)
      case Succeeded
      with Suc.prems le b d show ?thesis by (auto simp: trials_succeeded)
    next
      case (Halted h)
      with Suc.prems le b d show ?thesis by (auto simp: trials_halted)
    next
      case Failed
      with Suc.prems le b obtain ys hist1 where
        nxt: "trials body (trial + 1) g1 rs1 = Some (out, g', rs', ys, hist1)"
        and xs: "xs = xs1 @ ys" and hist: "hist = Failed # hist1"
        by (auto simp: trials_failed split: option.splits)
      have n: "n = Suc defaultMaxRetries - (trial + 1)" using Suc.hyps(2) by simp
      note IH = Suc.hyps(1) [OF n nxt]
      have len: "Suc defaultMaxRetries - trial = Suc (Suc defaultMaxRetries - (trial + 1))"
        using le by simp
      from IH d show ?thesis
        unfolding xs hist len
        by (cases hist1) (auto simp: discoveries_def)
    qed
  qed
qed


lemma discoveries_Nil [simp]: "discoveries [] = 0"
  by (simp add: discoveries_def)

lemma discoveries_append: "discoveries (xs @ ys) = discoveries xs + discoveries ys"
  by (simp add: discoveries_def)

lemma fileLoop_discoveries:
  "fileLoop lim ident idx file st rs = Some (e, st', rs', xs) \<Longrightarrow> discoveries xs = 0"
proof (induction rs arbitrary: st e st' rs' xs)
  case Nil
  then show ?case
    by (subst (asm) fileLoop.simps) (auto simp: discoveries_def split: sum.splits if_splits)
next
  case (Cons r rs)
  note IH = Cons.IH
  from Cons.prems show ?case
    apply (subst (asm) fileLoop.simps)
    apply (simp add: Let_def sent_def discoveries_def
                split: sum.splits reply.splits if_splits option.splits prod.splits)
      apply (auto dest!: IH simp: discoveries_def)
    done
qed

lemma filesLoop_discoveries:
  "filesLoop lim fs ident filesPaths idx order st rs = Some (e, st', rs', xs) \<Longrightarrow> discoveries xs = 0"
proof (induction order arbitrary: idx st rs e st' rs' xs)
  case Nil
  then show ?case by (simp add: discoveries_def)
next
  case (Cons fileName rest)
  from Cons.prems show ?case
    apply (simp split: sum.splits option.splits prod.splits flow.splits)
      apply (auto dest!: fileLoop_discoveries Cons.IH simp: discoveries_append)
    done
qed

lemma uploadFiles_discoveries:
  "uploadFiles lim fs g ident filesPaths order rs = Some (e, g', rs', xs) \<Longrightarrow> discoveries xs = 0"
  by (auto simp: uploadFiles_def discoveries_def [of "[]"]
           split: if_splits option.splits prod.splits flow.splits
           dest!: filesLoop_discoveries)

lemma updateUploadURL_discoveries:
  "updateUploadURL g rs = Some (r, g1, rs1, xs1) \<Longrightarrow> discoveries xs1 = 1"
  by (auto simp: updateUploadURL_def discoveries_def
           split: list.splits reply.splits option.splits if_splits)

lemma sendInitialRequest_discoveries:
  "sendInitialRequest g p t hs rs = Some (r, g1, rs1, xs1) \<Longrightarrow> discoveries xs1 = 0"
  by (auto simp: sendInitialRequest_def discoveries_def
           split: list.splits reply.splits if_splits)

lemma sendVideoInitialRequest_discoveries:
  "sendVideoInitialRequest fs g p rs = Some (r, g1, rs1, xs1) \<Longrightarrow> discoveries xs1 = 0"
  by (auto simp: sendVideoInitialRequest_def discoveries_def [of "[]"] split: sum.splits
           dest: sendInitialRequest_discoveries)

lemma sendModelInitialRequest_discoveries:
  "sendModelInitialRequest fs g m c k rs = Some (r, g1, rs1, xs1) \<Longrightarrow> discoveries xs1 = 0"
  by (auto simp: sendModelInitialRequest_def discoveries_def [of "[]"] split: sum.splits
           dest: sendInitialRequest_discoveries)

lemma videoAttempt_discoveries:
  assumes "videoAttempt lim fs videoPath g rs = Some (a, g', rs', xs)"
  shows "discoveries xs = 1"
proof (cases "updateUploadURL g rs")
  case None
  with assms show ?thesis by (simp add: videoAttempt_def)
next
  case (Some t)
  then obtain r g1 rs1 xs1 where u: "updateUploadURL g rs = Some (r, g1, rs1, xs1)"
    by (cases t) auto
  note k1 = updateUploadURL_discoveries [OF u]
  show ?thesis
  proof (cases "r = Returns None")
    case False
    with assms u k1 show ?thesis
      by (auto simp: videoAttempt_def split: result.splits option.splits)
  next
    case True
    show ?thesis
    proof (cases "sendVideoInitialRequest fs g1 videoPath rs1")
      case None
      with assms u True show ?thesis by (simp add: videoAttempt_def)
    next
      case (Some t2)
      then obtain r2 g2 rs2 xs2 where
        i: "sendVideoInitialRequest fs g1 videoPath rs1 = Some (r2, g2, rs2, xs2)"
        by (cases t2) auto
      note k2 = sendVideoInitialRequest_discoveries [OF i]
      from assms u True i k1 k2 show ?thesis
        by (auto simp: videoAttempt_def discoveries_append
                 split: result.splits option.splits prod.splits dest!: uploadFiles_discoveries)
    qed
  qed
qed

lemma modelAttempt_discoveries:
  assumes "modelAttempt lim fs m c k g rs = Some (a, g', rs', xs)"
  shows "discoveries xs = 1"
proof (cases "updateUploadURL g rs")
  case None
  with assms show ?thesis by (simp add: modelAttempt_def)
next
  case (Some t)
  then obtain r g1 rs1 xs1 where u: "updateUploadURL g rs = Some (r, g1, rs1, xs1)"
    by (cases t) auto
  note k1 = updateUploadURL_discoveries [OF u]
  show ?thesis
  proof (cases "r = Returns None")
    case False
    with assms u k1 show ?thesis
      by (auto simp: modelAttempt_def split: result.splits option.splits)
  next
    case True
    show ?thesis
    proof (cases "sendModelInitialRequest fs g1 m c k rs1")
      case None
      with assms u True show ?thesis by (simp add: modelAttempt_def)
    next
      case (Some t2)
      then obtain r2 g2 rs2 xs2 where
        i: "sendModelInitialRequest fs g1 m c k rs1 = Some (r2, g2, rs2, xs2)"
        by (cases t2) auto
      note k2 = sendModelInitialRequest_discoveries [OF i]
      from assms u True i k1 k2 show ?thesis
        by (auto simp: modelAttempt_def discoveries_append
                 split: result.splits option.splits prod.splits dest!: uploadFiles_discoveries)
    qed
  qed
qed

lemma trials_replay:
  "trials body trial g rs = Some (out, g', rs', xs, hist) \<Longrightarrow>
     replay body (length hist) g rs = Some (hist, g', rs', xs)"
proof (induction "Suc defaultMaxRetries - trial" arbitrary: trial g rs out g' rs' xs hist)
  case 0
  then have "\<not> trial \<le> defaultMaxRetries" by simp
  with "0.prems" show ?case
    by (auto simp: trials_stop)
next
  case (Suc n)
  then have le: "trial \<le> defaultMaxRetries" by simp
  show ?case
  proof (cases "body g rs")
    case None
    with Suc.prems le show ?thesis by (simp add: trials_none)
  next
    case (Some t)
    then obtain a g1 rs1 xs1 where b: "body g rs = Some (a, g1, rs1, xs1)"
      by (cases t) auto
    show ?thesis
    proof (cases a)
      case Succeeded
      with Suc.prems le b show ?thesis by (auto simp: trials_succeeded)
    next
      case (Halted h)
      with Suc.prems le b show ?thesis by (auto simp: trials_halted)
    next
      case Failed
      with Suc.prems le b obtain ys hist1 where
        nxt: "trials body (trial + 1) g1 rs1 = Some (out, g', rs', ys, hist1)"
        and xs: "xs = xs1 @ ys" and hist: "hist = Failed # hist1"
        by (auto simp: trials_failed split: option.splits)
      have n: "n = Suc defaultMaxRetries - (trial + 1)" using Suc.hyps(2) by simp
      from Suc.hyps(1) [OF n nxt] b Failed show ?thesis
        unfolding xs hist by simp
    qed
  qed
qed

lemma trials_success_last:
  "trials body trial g rs = Some (Returns (), g', rs', xs, hist) \<Longrightarrow>
     \<exists>ga rsa pre ys. body ga rsa = Some (Succeeded, g', rs', ys) \<and> xs = pre @ ys"
proof (induction "Suc defaultMaxRetries - trial" arbitrary: trial g rs xs hist)
  case 0
  then have "\<not> trial \<le> defaultMaxRetries" by simp
  with "0.prems" show ?case
    by (auto simp: trials_stop)
next
  case (Suc n)
  then have le: "trial \<le> defaultMaxRetries" by simp
  show ?case
  proof (cases "body g rs")
    case None
    with Suc.prems le show ?thesis by (simp add: trials_none)
  next
    case (Some t)
    then obtain a g1 rs1 xs1 where b: "body g rs = Some (a, g1, rs1, xs1)"
      by (cases t) auto
    show ?thesis
    proof (cases a)
      case Succeeded
      with Suc.prems le b have "body g rs = Some (Succeeded, g', rs', xs)"
        by (auto simp: trials_succeeded)
      then have "body g rs = Some (Succeeded, g', rs', xs) \<and> xs = [] @ xs" by simp
      then show ?thesis by blast
    next
      case (Halted h)
      with Suc.prems le b show ?thesis by (auto simp: trials_halted)
    next
      case Failed
      with Suc.prems le b obtain ys hist1 where
        nxt: "trials body (trial + 1) g1 rs1 = Some (Returns (), g', rs', ys, hist1)"
        and xs: "xs = xs1 @ ys"
        by (auto simp: trials_failed split: option.splits)
      have n: "n = Suc defaultMaxRetries - (trial + 1)" using Suc.hyps(2) by simp
      from Suc.hyps(1) [OF n nxt] obtain ga rsa pre zs where
        "body ga rsa = Some (Succeeded, g', rs', zs)" and "ys = pre @ zs"
        by blast
      then have "body ga rsa = Some (Succeeded, g', rs', zs) \<and> xs = (xs1 @ pre) @ zs"
        using xs by simp
      then show ?thesis by blast
    qed
  qed
qed

lemma trials_after_failed:
  "replay body k g rs = Some (replicate k Failed, gk, rsk, pre) \<Longrightarrow>
   trial + k \<le> Suc defaultMaxRetries \<Longrightarrow>
     trials body trial g rs =
       (case trials body (trial + k) gk rsk of
          None \<Rightarrow> None
        | Some (out, g'', rs'', ys, hist) \<Rightarrow>
            Some (out, g'', rs'', pre @ ys, replicate k Failed @ hist))"
proof (induction k arbitrary: trial g rs pre)
  case 0
  then show ?case by (simp split: option.splits)
next
  case (Suc k)
  from Suc.prems(1) obtain g1 rs1 xs1 ys where
    b: "body g rs = Some (Failed, g1, rs1, xs1)"
    and r: "replay body k g1 rs1 = Some (replicate k Failed, gk, rsk, ys)"
    and pre: "pre = xs1 @ ys"
    by (auto split: option.splits)
  have le: "trial \<le> defaultMaxRetries" using Suc.prems(2) by simp
  have "trial + 1 + k \<le> Suc defaultMaxRetries" using Suc.prems(2) by simp
  from Suc.IH [OF r this]
  have nxt: "trials body (trial + 1) g1 rs1 =
       (case trials body (trial + 1 + k) gk rsk of
          None \<Rightarrow> None
        | Some (out, g'', rs'', zs, hist) \<Rightarrow>
            Some (out, g'', rs'', ys @ zs, replicate k Failed @ hist))" .
  have eq: "trial + 1 + k = trial + Suc k" by simp
  have "trials body trial g rs =
       (case trials body (trial + 1) g1 rs1 of
          None \<Rightarrow> None
        | Some (out, g'', rs'', zs, hist) \<Rightarrow> Some (out, g'', rs'', xs1 @ zs, Failed # hist))"
    using le b by (rule trials_failed)
  then show ?case
    unfolding nxt eq pre by (simp split: option.splits)
qed

lemma videoAttempt_Succeeded:
  "videoAttempt lim fs p g rs = Some (Succeeded, g', rs', ys) \<longleftrightarrow>
     (\<exists>g1 rs1 xs1 ident g2 rs2 xs2 xs3.
        updateUploadURL g rs = Some (Returns None, g1, rs1, xs1)
        \<and> sendVideoInitialRequest fs g1 p rs1 = Some (Returns (ident, None), g2, rs2, xs2)
        \<and> uploadFiles lim fs g2 ident [''video'' \<mapsto> p] [''video''] rs2
            = Some (Returns None, g', rs', xs3)
        \<and> ys = xs1 @ xs2 @ xs3)"
proof
  assume a: "videoAttempt lim fs p g rs = Some (Succeeded, g', rs', ys)"
  then obtain r g1 rs1 xs1 where u: "updateUploadURL g rs = Some (r, g1, rs1, xs1)"
    by (cases "updateUploadURL g rs") (auto simp: videoAttempt_def)
  with a have r: "r = Returns None"
    by (auto simp: videoAttempt_def split: result.splits option.splits)
  from a u r obtain r2 g2 rs2 xs2 where
    i: "sendVideoInitialRequest fs g1 p rs1 = Some (r2, g2, rs2, xs2)"
    by (cases "sendVideoInitialRequest fs g1 p rs1") (auto simp: videoAttempt_def)
  with a u r obtain ident where r2: "r2 = Returns (ident, None)"
    by (auto simp: videoAttempt_def split: result.splits option.splits prod.splits)
  from a u r i r2 obtain xs3 where
    "uploadFiles lim fs g2 ident [''video'' \<mapsto> p] [''video''] rs2 = Some (Returns None, g', rs', xs3)"
    and "ys = xs1 @ xs2 @ xs3"
    by (auto simp: videoAttempt_def split: result.splits option.splits prod.splits)
  with u r i r2 show "\<exists>g1 rs1 xs1 ident g2 rs2 xs2 xs3.
        updateUploadURL g rs = Some (Returns None, g1, rs1, xs1)
        \<and> sendVideoInitialRequest fs g1 p rs1 = Some (Returns (ident, None), g2, rs2, xs2)
        \<and> uploadFiles lim fs g2 ident [''video'' \<mapsto> p] [''video''] rs2
            = Some (Returns None, g', rs', xs3)
        \<and> ys = xs1 @ xs2 @ xs3"
    by blast
next
  assume "\<exists>g1 rs1 xs1 ident g2 rs2 xs2 xs3.
        updateUploadURL g rs = Some (Returns None, g1, rs1, xs1)
        \<and> sendVideoInitialRequest fs g1 p rs1 = Some (Returns (ident, None), g2, rs2, xs2)
        \<and> uploadFiles lim fs g2 ident [''video'' \<mapsto> p] [''video''] rs2
            = Some (Returns None, g', rs', xs3)
        \<and> ys = xs1 @ xs2 @ xs3"
  then show "videoAttempt lim fs p g rs = Some (Succeeded, g', rs', ys)"
    by (auto simp: videoAttempt_def)
qed

lemma videoAttempt_Failed:
  "videoAttempt lim fs p g rs = Some (Failed, g', rs', ys) \<longleftrightarrow>
     (\<exists>err g1. updateUploadURL g rs = Some (Returns (Some err), g1, rs', ys)
        \<and> updateMasterURL g1 = Returns g')
   \<or> (\<exists>g1 rs1 xs1 ident err xs2.
        updateUploadURL g rs = Some (Returns None, g1, rs1, xs1)
        \<and> sendVideoInitialRequest fs g1 p rs1 = Some (Returns (ident, Some err), g', rs', xs2)
        \<and> ys = xs1 @ xs2)
   \<or> (\<exists>g1 rs1 xs1 ident g2 rs2 xs2 err xs3.
        updateUploadURL g rs = Some (Returns None, g1, rs1, xs1)
        \<and> sendVideoInitialRequest fs g1 p rs1 = Some (Returns (ident, None), g2, rs2, xs2)
        \<and> uploadFiles lim fs g2 ident [''video'' \<mapsto> p] [''video''] rs2
            = Some (Returns (Some err), g', rs', xs3)
        \<and> ys = xs1 @ xs2 @ xs3)"
  (is "?L \<longleftrightarrow> ?A \<or> ?B \<or> ?C")
proof
  assume a: ?L
  then obtain r g1 rs1 xs1 where u: "updateUploadURL g rs = Some (r, g1, rs1, xs1)"
    by (cases "updateUploadURL g rs") (auto simp: videoAttempt_def)
  show "?A \<or> ?B \<or> ?C"
  proof (cases "r = Returns None")
    case False
    with a u have ?A
      by (auto simp: videoAttempt_def split: result.splits option.splits)
    then show ?thesis ..
  next
    case True
    with a u obtain r2 g2 rs2 xs2 where
      i: "sendVideoInitialRequest fs g1 p rs1 = Some (r2, g2, rs2, xs2)"
      by (cases "sendVideoInitialRequest fs g1 p rs1") (auto simp: videoAttempt_def)
    show ?thesis
    proof (cases "\<exists>ident. r2 = Returns (ident, None)")
      case False
      with a u True i have ?B
        by (auto simp: videoAttempt_def split: result.splits option.splits prod.splits)
      then show ?thesis by blast
    next
      case ex: True
      then obtain ident where r2: "r2 = Returns (ident, None)" by auto
      from a u True i r2 obtain err xs3 where
        "uploadFiles lim fs g2 ident [''video'' \<mapsto> p] [''video''] rs2
           = Some (Returns (Some err), g', rs', xs3)"
        and "ys = xs1 @ xs2 @ xs3"
        by (auto simp: videoAttempt_def split: result.splits option.splits prod.splits)
      with u True i r2 have ?C by blast
      then show ?thesis by blast
    qed
  qed
next
  assume "?A \<or> ?B \<or> ?C"
  then show ?L
    by (auto simp: videoAttempt_def)
qed

lemma modelAttempt_Succeeded:
  "modelAttempt lim fs m c k g rs = Some (Succeeded, g', rs', ys) \<longleftrightarrow>
     (\<exists>g1 rs1 xs1 ident g2 rs2 xs2 xs3.
        updateUploadURL g rs = Some (Returns None, g1, rs1, xs1)
        \<and> sendModelInitialRequest fs g1 m c k rs1 = Some (Returns (ident, None), g2, rs2, xs2)
        \<and> uploadFiles lim fs g2 ident [''model'' \<mapsto> m, ''config'' \<mapsto> c, ''code'' \<mapsto> k]
            modelUploadOrder rs2
            = Some (Returns None, g', rs', xs3)
        \<and> ys = xs1 @ xs2 @ xs3)"
proof
  assume a: "modelAttempt lim fs m c k g rs = Some (Succeeded, g', rs', ys)"
  then obtain r g1 rs1 xs1 where u: "updateUploadURL g rs = Some (r, g1, rs1, xs1)"
    by (cases "updateUploadURL g rs") (auto simp: modelAttempt_def)
  with a have r: "r = Returns None"
    by (auto simp: modelAttempt_def split: result.splits option.splits)
  from a u r obtain r2 g2 rs2 xs2 where
    i: "sendModelInitialRequest fs g1 m c k rs1 = Some (r2, g2, rs2, xs2)"
    by (cases "sendModelInitialRequest fs g1 m c k rs1") (auto simp: modelAttempt_def)
  with a u r obtain ident where r2: "r2 = Returns (ident, None)"
    by (auto simp: modelAttempt_def split: result.splits option.splits prod.splits)
  from a u r i r2 obtain xs3 where
    "uploadFiles lim fs g2 ident [''model'' \<mapsto> m, ''config'' \<mapsto> c, ''code'' \<mapsto> k]
            modelUploadOrder rs2 = Some (Returns None, g', rs', xs3)"
    and "ys = xs1 @ xs2 @ xs3"
    by (auto simp: modelAttempt_def split: result.splits option.splits prod.splits)
  with u r i r2 show "\<exists>g1 rs1 xs1 ident g2 rs2 xs2 xs3.
        updateUploadURL g rs = Some (Returns None, g1, rs1, xs1)
        \<and> sendModelInitialRequest fs g1 m c k rs1 = Some (Returns (ident, None), g2, rs2, xs2)
        \<and> uploadFiles lim fs g2 ident [''model'' \<mapsto> m, ''config'' \<mapsto> c, ''code'' \<mapsto> k]
            modelUploadOrder rs2
            = Some (Returns None, g', rs', xs3)
        \<and> ys = xs1 @ xs2 @ xs3"
    by blast
next
  assume "\<exists>g1 rs1 xs1 ident g2 rs2 xs2 xs3.
        updateUploadURL g rs = Some (Returns None, g1, rs1, xs1)
        \<and> sendModelInitialRequest fs g1 m c k rs1 = Some (Returns (ident, None), g2, rs2, xs2)
        \<and> uploadFiles lim fs g2 ident [''model'' \<mapsto> m, ''config'' \<mapsto> c, ''code'' \<mapsto> k]
            modelUploadOrder rs2
            = Some (Returns None, g', rs', xs3)
        \<and> ys = xs1 @ xs2 @ xs3"
  then show "modelAttempt lim fs m c k g rs = Some (Succeeded, g', rs', ys)"
    by (auto simp: modelAttempt_def)
qed

lemma modelAttempt_Failed:
  "modelAttempt lim fs m c k g rs = Some (Failed, g', rs', ys) \<longleftrightarrow>
     (\<exists>err g1. updateUploadURL g rs = Some (Returns (Some err), g1, rs', ys)
        \<and> updateMasterURL g1 = Returns g')
   \<or> (\<exists>g1 rs1 xs1 ident err xs2.
        updateUploadURL g rs = Some (Returns None, g1, rs1, xs1)
        \<and> sendModelInitialRequest fs g1 m c k rs1 = Some (Returns (ident, Some err), g', rs', xs2)
        \<and> ys = xs1 @ xs2)
   \<or> (\<exists>g1 rs1 xs1 ident g2 rs2 xs2 err xs3.
        updateUploadURL g rs = Some (Returns None, g1, rs1, xs1)
        \<and> sendModelInitialRequest fs g1 m c k rs1 = Some (Returns (ident, None), g2, rs2, xs2)
        \<and> uploadFiles lim fs g2 ident [''model'' \<mapsto> m, ''config'' \<mapsto> c, ''code'' \<mapsto> k]
            modelUploadOrder rs2
            = Some (Returns (Some err), g', rs', xs3)
        \<and> ys = xs1 @ xs2 @ xs3)"
  (is "?L \<longleftrightarrow> ?A \<or> ?B \<or> ?C")
proof
  assume a: ?L
  then obtain r g1 rs1 xs1 where u: "updateUploadURL g rs = Some (r, g1, rs1, xs1)"
    by (cases "updateUploadURL g rs") (auto simp: modelAttempt_def)
  show "?A \<or> ?B \<or> ?C"
  proof (cases "r = Returns None")
    case False
    with a u have ?A
      by (auto simp: modelAttempt_def split: result.splits option.splits)
    then show ?thesis ..
  next
    case True
    with a u obtain r2 g2 rs2 xs2 where
      i: "sendModelInitialRequest fs g1 m c k rs1 = Some (r2, g2, rs2, xs2)"
      by (cases "sendModelInitialRequest fs g1 m c k rs1") (auto simp: modelAttempt_def)
    show ?thesis
    proof (cases "\<exists>ident. r2 = Returns (ident, None)")
      case False
      with a u True i have ?B
        by (auto simp: modelAttempt_def split: result.splits option.splits prod.splits)
      then show ?thesis by blast
    next
      case ex: True
      then obtain ident where r2: "r2 = Returns (ident, None)" by auto
      from a u True i r2 obtain err xs3 where
        "uploadFiles lim fs g2 ident [''model'' \<mapsto> m, ''config'' \<mapsto> c, ''code'' \<mapsto> k]
            modelUploadOrder rs2
           = Some (Returns (Some err), g', rs', xs3)"
        and "ys = xs1 @ xs2 @ xs3"
        by (auto simp: modelAttempt_def split: result.splits option.splits prod.splits)
      with u True i r2 have ?C by blast
      then show ?thesis by blast
    qed
  qed
next
  assume "?A \<or> ?B \<or> ?C"
  then show ?L
    by (auto simp: modelAttempt_def)
qed


text \<open>
  C5. A run of \<open>UploadVideo\<close> or of \<open>UploadModel\<close> passes through the body of its loop
  at most \<open>defaultMaxRetries + 1\<close> times, each time with one request to a master, and the
  outcomes of the passes are those of the body run that many times in a row
  (\<open>replay\<close>). Every pass before the last one failed. The function returns (after
  "Upload successful") exactly when the last pass succeeded, and then the run ends with a
  negotiation (\<open>updateUploadURL\<close>, then the init request) and a transfer (\<open>uploadFiles\<close>)
  that all returned without error. A pass succeeds exactly when these three calls return
  without error, and fails exactly when one of them returns an error (after an error of
  \<open>updateUploadURL\<close>, when \<open>updateMasterURL\<close> returns). After \<open>k\<close> failed passes, with
  \<open>k\<close> at most \<open>defaultMaxRetries\<close>, a negotiation and a transfer that succeed make the
  function return at once. After \<open>defaultMaxRetries + 1\<close> failed passes the process ends
  in \<open>log.Fatal("File not uploaded")\<close>.
\<close>

theorem retry_loop_bounded:
  "(UploadVideo lim fs videoPath g rs = Some (out, g', rs', xs, hist) \<longrightarrow>
      length hist \<le> defaultMaxRetries + 1
      \<and> discoveries xs = length hist
      \<and> (\<forall>a \<in> set (butlast hist). a = Failed)
      \<and> (out = Returns () \<longleftrightarrow> hist \<noteq> [] \<and> last hist = Succeeded)
      \<and> ((\<forall>a \<in> set hist. a = Failed) \<longrightarrow>
           out = Halts FatalNotUploaded \<and> length hist = defaultMaxRetries + 1)
      \<and> replay (videoAttempt lim fs videoPath) (length hist) g rs = Some (hist, g', rs', xs)
      \<and> (out = Returns () \<longrightarrow>
           (\<exists>ga rsa pre g1 rs1 xs1 ident g2 rs2 xs2 xs3.
              updateUploadURL ga rsa = Some (Returns None, g1, rs1, xs1)
              \<and> sendVideoInitialRequest fs g1 videoPath rs1 = Some (Returns (ident, None), g2, rs2, xs2)
              \<and> uploadFiles lim fs g2 ident [''video'' \<mapsto> videoPath] [''video''] rs2 = Some (Returns None, g', rs', xs3)
              \<and> xs = pre @ xs1 @ xs2 @ xs3)))
   \<and> (k \<le> defaultMaxRetries \<longrightarrow>
       replay (videoAttempt lim fs videoPath) k g rs = Some (replicate k Failed, gk, rsk, pre) \<longrightarrow>
       updateUploadURL gk rsk = Some (Returns None, g1, rs1, xs1) \<longrightarrow>
       sendVideoInitialRequest fs g1 videoPath rs1 = Some (Returns (ident, None), g2, rs2, xs2) \<longrightarrow>
       uploadFiles lim fs g2 ident [''video'' \<mapsto> videoPath] [''video''] rs2 = Some (Returns None, g3, rs3, xs3) \<longrightarrow>
       UploadVideo lim fs videoPath g rs
         = Some (Returns (), g3, rs3, pre @ xs1 @ xs2 @ xs3, replicate k Failed @ [Succeeded]))
   \<and> (replay (videoAttempt lim fs videoPath) (defaultMaxRetries + 1) g rs
         = Some (replicate (defaultMaxRetries + 1) Failed, gk, rsk, pre) \<longrightarrow>
       UploadVideo lim fs videoPath g rs
         = Some (Halts FatalNotUploaded, gk, rsk, pre, replicate (defaultMaxRetries + 1) Failed))
   \<and> (videoAttempt lim fs videoPath ga rsa = Some (Succeeded, gb, rsb, ys) \<longleftrightarrow>
        (\<exists>g1 rs1 xs1 ident g2 rs2 xs2 xs3.
           updateUploadURL ga rsa = Some (Returns None, g1, rs1, xs1)
           \<and> sendVideoInitialRequest fs g1 videoPath rs1 = Some (Returns (ident, None), g2, rs2, xs2)
           \<and> uploadFiles lim fs g2 ident [''video'' \<mapsto> videoPath] [''video''] rs2 = Some (Returns None, gb, rsb, xs3)
           \<and> ys = xs1 @ xs2 @ xs3))
   \<and> (videoAttempt lim fs videoPath ga rsa = Some (Failed, gb, rsb, ys) \<longleftrightarrow>
        (\<exists>err g1. updateUploadURL ga rsa = Some (Returns (Some err), g1, rsb, ys)
           \<and> updateMasterURL g1 = Returns gb)
      \<or> (\<exists>g1 rs1 xs1 ident err xs2.
           updateUploadURL ga rsa = Some (Returns None, g1, rs1, xs1)
           \<and> sendVideoInitialRequest fs g1 videoPath rs1 = Some (Returns (ident, Some err), gb, rsb, xs2)
           \<and> ys = xs1 @ xs2)
      \<or> (\<exists>g1 rs1 xs1 ident g2 rs2 xs2 err xs3.
           updateUploadURL ga rsa = Some (Returns None, g1, rs1, xs1)
           \<and> sendVideoInitialRequest fs g1 videoPath rs1 = Some (Returns (ident, None), g2, rs2, xs2)
           \<and> uploadFiles lim fs g2 ident [''video'' \<mapsto> videoPath] [''video''] rs2 = Some (Returns (Some err), gb, rsb, xs3)
           \<and> ys = xs1 @ xs2 @ xs3))
   \<and> (UploadModel lim fs modelPath configPath codePath g rs = Some (out, g', rs', xs, hist) \<longrightarrow>
      length hist \<le> defaultMaxRetries + 1
      \<and> discoveries xs = length hist
      \<and> (\<forall>a \<in> set (butlast hist). a = Failed)
      \<and> (out = Returns () \<longleftrightarrow> hist \<noteq> [] \<and> last hist = Succeeded)
      \<and> ((\<forall>a \<in> set hist. a = Failed) \<longrightarrow>
           out = Halts FatalNotUploaded \<and> length hist = defaultMaxRetries + 1)
      \<and> replay (modelAttempt lim fs modelPath configPath codePath) (length hist) g rs = Some (hist, g', rs', xs)
      \<and> (out = Returns () \<longrightarrow>
           (\<exists>ga rsa pre g1 rs1 xs1 ident g2 rs2 xs2 xs3.
              updateUploadURL ga rsa = Some (Returns None, g1, rs1, xs1)
              \<and> sendModelInitialRequest fs g1 modelPath configPath codePath rs1 = Some (Returns (ident, None), g2, rs2, xs2)
              \<and> uploadFiles lim fs g2 ident
                 [''model'' \<mapsto> modelPath, ''config'' \<mapsto> configPath, ''code'' \<mapsto> codePath]
                 modelUploadOrder rs2 = Some (Returns None, g', rs', xs3)
              \<and> xs = pre @ xs1 @ xs2 @ xs3)))
   \<and> (k \<le> defaultMaxRetries \<longrightarrow>
       replay (modelAttempt lim fs modelPath configPath codePath) k g rs = Some (replicate k Failed, gk, rsk, pre) \<longrightarrow>
       updateUploadURL gk rsk = Some (Returns None, g1, rs1, xs1) \<longrightarrow>
       sendModelInitialRequest fs g1 modelPath configPath codePath rs1 = Some (Returns (ident, None), g2, rs2, xs2) \<longrightarrow>
       uploadFiles lim fs g2 ident
                 [''model'' \<mapsto> modelPath, ''config'' \<mapsto> configPath, ''code'' \<mapsto> codePath]
                 modelUploadOrder rs2 = Some (Returns None, g3, rs3, xs3) \<longrightarrow>
       UploadModel lim fs modelPath configPath codePath g rs
         = Some (Returns (), g3, rs3, pre @ xs1 @ xs2 @ xs3, replicate k Failed @ [Succeeded]))
   \<and> (replay (modelAttempt lim fs modelPath configPath codePath) (defaultMaxRetries + 1) g rs
         = Some (replicate (defaultMaxRetries + 1) Failed, gk, rsk, pre) \<longrightarrow>
       UploadModel lim fs modelPath configPath codePath g rs
         = Some (Halts FatalNotUploaded, gk, rsk, pre, replicate (defaultMaxRetries + 1) Failed))
   \<and> (modelAttempt lim fs modelPath configPath codePath ga rsa = Some (Succeeded, gb, rsb, ys) \<longleftrightarrow>
        (\<exists>g1 rs1 xs1 ident g2 rs2 xs2 xs3.
           updateUploadURL ga rsa = Some (Returns None, g1, rs1, xs1)
           \<and> sendModelInitialRequest fs g1 modelPath configPath codePath rs1 = Some (Returns (ident, None), g2, rs2, xs2)
           \<and> uploadFiles lim fs g2 ident
                 [''model'' \<mapsto> modelPath, ''config'' \<mapsto> configPath, ''code'' \<mapsto> codePath]
                 modelUploadOrder rs2 = Some (Returns None, gb, rsb, xs3)
           \<and> ys = xs1 @ xs2 @ xs3))
   \<and> (modelAttempt lim fs modelPath configPath codePath ga rsa = Some (Failed, gb, rsb, ys) \<longleftrightarrow>
        (\<exists>err g1. updateUploadURL ga rsa = Some (Returns (Some err), g1, rsb, ys)
           \<and> updateMasterURL g1 = Returns gb)
      \<or> (\<exists>g1 rs1 xs1 ident err xs2.
           updateUploadURL ga rsa = Some (Returns None, g1, rs1, xs1)
           \<and> sendModelInitialRequest fs g1 modelPath configPath codePath rs1 = Some (Returns (ident, Some err), gb, rsb, xs2)
           \<and> ys = xs1 @ xs2)
      \<or> (\<exists>g1 rs1 xs1 ident g2 rs2 xs2 err xs3.
           updateUploadURL ga rsa = Some (Returns None, g1, rs1, xs1)
           \<and> sendModelInitialRequest fs g1 modelPath configPath codePath rs1 = Some (Returns (ident, None), g2, rs2, xs2)
           \<and> uploadFiles lim fs g2 ident
                 [''model'' \<mapsto> modelPath, ''config'' \<mapsto> configPath, ''code'' \<mapsto> codePath]
                 modelUploadOrder rs2 = Some (Returns (Some err), gb, rsb, xs3)
           \<and> ys = xs1 @ xs2 @ xs3))"
proof -
  have run_video: "length hist \<le> defaultMaxRetries + 1
      \<and> discoveries xs = length hist
      \<and> (\<forall>a \<in> set (butlast hist). a = Failed)
      \<and> (out = Returns () \<longleftrightarrow> hist \<noteq> [] \<and> last hist = Succeeded)
      \<and> ((\<forall>a \<in> set hist. a = Failed) \<longrightarrow>
           out = Halts FatalNotUploaded \<and> length hist = defaultMaxRetries + 1)
      \<and> replay (videoAttempt lim fs videoPath) (length hist) g rs = Some (hist, g', rs', xs)
      \<and> (out = Returns () \<longrightarrow>
           (\<exists>ga rsa pre g1 rs1 xs1 ident g2 rs2 xs2 xs3.
              updateUploadURL ga rsa = Some (Returns None, g1, rs1, xs1)
              \<and> sendVideoInitialRequest fs g1 videoPath rs1 = Some (Returns (ident, None), g2, rs2, xs2)
              \<and> uploadFiles lim fs g2 ident [''video'' \<mapsto> videoPath] [''video''] rs2 = Some (Returns None, g', rs', xs3)
              \<and> xs = pre @ xs1 @ xs2 @ xs3))"
    if "UploadVideo lim fs videoPath g rs = Some (out, g', rs', xs, hist)"
  proof -
    from that have t: "trials (videoAttempt lim fs videoPath) 0 g rs = Some (out, g', rs', xs, hist)"
      by (simp add: UploadVideo_def)
    have a: "length hist \<le> defaultMaxRetries + 1
      \<and> discoveries xs = length hist
      \<and> (\<forall>a \<in> set (butlast hist). a = Failed)
      \<and> (out = Returns () \<longleftrightarrow> hist \<noteq> [] \<and> last hist = Succeeded)
      \<and> ((\<forall>a \<in> set hist. a = Failed) \<longrightarrow>
           out = Halts FatalNotUploaded \<and> length hist = defaultMaxRetries + 1)"
      using trials_shape [OF t videoAttempt_discoveries] by simp
    have h: "replay (videoAttempt lim fs videoPath) (length hist) g rs = Some (hist, g', rs', xs)"
      using t by (rule trials_replay)
    have b: "\<exists>ga rsa pre g1 rs1 xs1 ident g2 rs2 xs2 xs3.
              updateUploadURL ga rsa = Some (Returns None, g1, rs1, xs1)
              \<and> sendVideoInitialRequest fs g1 videoPath rs1 = Some (Returns (ident, None), g2, rs2, xs2)
              \<and> uploadFiles lim fs g2 ident [''video'' \<mapsto> videoPath] [''video''] rs2 = Some (Returns None, g', rs', xs3)
              \<and> xs = pre @ xs1 @ xs2 @ xs3"
      if "out = Returns ()"
    proof -
      from t that obtain ga rsa pre ys where
        s: "videoAttempt lim fs videoPath ga rsa = Some (Succeeded, g', rs', ys)" and xs: "xs = pre @ ys"
        using trials_success_last [of "videoAttempt lim fs videoPath" 0 g rs g' rs' xs hist] by auto
      from s [unfolded videoAttempt_Succeeded] xs show ?thesis
        by blast
    qed
    from a h b show ?thesis by blast
  qed
  have win_video: "UploadVideo lim fs videoPath g rs
         = Some (Returns (), g3, rs3, pre @ xs1 @ xs2 @ xs3, replicate k Failed @ [Succeeded])"
    if k: "k \<le> defaultMaxRetries"
      and r: "replay (videoAttempt lim fs videoPath) k g rs = Some (replicate k Failed, gk, rsk, pre)"
      and u: "updateUploadURL gk rsk = Some (Returns None, g1, rs1, xs1)"
      and i: "sendVideoInitialRequest fs g1 videoPath rs1 = Some (Returns (ident, None), g2, rs2, xs2)"
      and t: "uploadFiles lim fs g2 ident [''video'' \<mapsto> videoPath] [''video''] rs2 = Some (Returns None, g3, rs3, xs3)"
  proof -
    have "videoAttempt lim fs videoPath gk rsk = Some (Succeeded, g3, rs3, xs1 @ xs2 @ xs3)"
      unfolding videoAttempt_Succeeded using u i t by blast
    with k have "trials (videoAttempt lim fs videoPath) (0 + k) gk rsk
        = Some (Returns (), g3, rs3, xs1 @ xs2 @ xs3, [Succeeded])"
      by (simp add: trials_succeeded)
    moreover have "0 + k \<le> Suc defaultMaxRetries" using k by simp
    ultimately show ?thesis
      using trials_after_failed [OF r, of 0] by (simp add: UploadVideo_def)
  qed
  have lose_video: "UploadVideo lim fs videoPath g rs
         = Some (Halts FatalNotUploaded, gk, rsk, pre, replicate (defaultMaxRetries + 1) Failed)"
    if r: "replay (videoAttempt lim fs videoPath) (defaultMaxRetries + 1) g rs
         = Some (replicate (defaultMaxRetries + 1) Failed, gk, rsk, pre)"
  proof -
    have "trials (videoAttempt lim fs videoPath) (0 + (defaultMaxRetries + 1)) gk rsk
        = Some (Halts FatalNotUploaded, gk, rsk, [], [])"
      by (simp add: trials_stop)
    then show ?thesis
      using trials_after_failed [OF r, of 0] by (simp add: UploadVideo_def)
  qed
  have run_model: "length hist \<le> defaultMaxRetries + 1
      \<and> discoveries xs = length hist
      \<and> (\<forall>a \<in> set (butlast hist). a = Failed)
      \<and> (out = Returns () \<longleftrightarrow> hist \<noteq> [] \<and> last hist = Succeeded)
      \<and> ((\<forall>a \<in> set hist. a = Failed) \<longrightarrow>
           out = Halts FatalNotUploaded \<and> length hist = defaultMaxRetries + 1)
      \<and> replay (modelAttempt lim fs modelPath configPath codePath) (length hist) g rs = Some (hist, g', rs', xs)
      \<and> (out = Returns () \<longrightarrow>
           (\<exists>ga rsa pre g1 rs1 xs1 ident g2 rs2 xs2 xs3.
              updateUploadURL ga rsa = Some (Returns None, g1, rs1, xs1)
              \<and> sendModelInitialRequest fs g1 modelPath configPath codePath rs1 = Some (Returns (ident, None), g2, rs2, xs2)
              \<and> uploadFiles lim fs g2 ident
                 [''model'' \<mapsto> modelPath, ''config'' \<mapsto> configPath, ''code'' \<mapsto> codePath]
                 modelUploadOrder rs2 = Some (Returns None, g', rs', xs3)
              \<and> xs = pre @ xs1 @ xs2 @ xs3))"
    if "UploadModel lim fs modelPath configPath codePath g rs = Some (out, g', rs', xs, hist)"
  proof -
    from that have t: "trials (modelAttempt lim fs modelPath configPath codePath) 0 g rs = Some (out, g', rs', xs, hist)"
      by (simp add: UploadModel_def)
    have a: "length hist \<le> defaultMaxRetries + 1
      \<and> discoveries xs = length hist
      \<and> (\<forall>a \<in> set (butlast hist). a = Failed)
      \<and> (out = Returns () \<longleftrightarrow> hist \<noteq> [] \<and> last hist = Succeeded)
      \<and> ((\<forall>a \<in> set hist. a = Failed) \<longrightarrow>
           out = Halts FatalNotUploaded \<and> length hist = defaultMaxRetries + 1)"
      using trials_shape [OF t modelAttempt_discoveries] by simp
    have h: "replay (modelAttempt lim fs modelPath configPath codePath) (length hist) g rs = Some (hist, g', rs', xs)"
      using t by (rule trials_replay)
    have b: "\<exists>ga rsa pre g1 rs1 xs1 ident g2 rs2 xs2 xs3.
              updateUploadURL ga rsa = Some (Returns None, g1, rs1, xs1)
              \<and> sendModelInitialRequest fs g1 modelPath configPath codePath rs1 = Some (Returns (ident, None), g2, rs2, xs2)
              \<and> uploadFiles lim fs g2 ident
                 [''model'' \<mapsto> modelPath, ''config'' \<mapsto> configPath, ''code'' \<mapsto> codePath]
                 modelUploadOrder rs2 = Some (Returns None, g', rs', xs3)
              \<and> xs = pre @ xs1 @ xs2 @ xs3"
      if "out = Returns ()"
    proof -
      from t that obtain ga rsa pre ys where
        s: "modelAttempt lim fs modelPath configPath codePath ga rsa = Some (Succeeded, g', rs', ys)" and xs: "xs = pre @ ys"
        using trials_success_last [of "modelAttempt lim fs modelPath configPath codePath" 0 g rs g' rs' xs hist] by auto
      from s [unfolded modelAttempt_Succeeded] xs show ?thesis
        by blast
    qed
    from a h b show ?thesis by blast
  qed
  have win_model: "UploadModel lim fs modelPath configPath codePath g rs
         = Some (Returns (), g3, rs3, pre @ xs1 @ xs2 @ xs3, replicate k Failed @ [Succeeded])"
    if k: "k \<le> defaultMaxRetries"
      and r: "replay (modelAttempt lim fs modelPath configPath codePath) k g rs = Some (replicate k Failed, gk, rsk, pre)"
      and u: "updateUploadURL gk rsk = Some (Returns None, g1, rs1, xs1)"
      and i: "sendModelInitialRequest fs g1 modelPath configPath codePath rs1 = Some (Returns (ident, None), g2, rs2, xs2)"
      and t: "uploadFiles lim fs g2 ident
                 [''model'' \<mapsto> modelPath, ''config'' \<mapsto> configPath, ''code'' \<mapsto> codePath]
                 modelUploadOrder rs2 = Some (Returns None, g3, rs3, xs3)"
  proof -
    have "modelAttempt lim fs modelPath configPath codePath gk rsk = Some (Succeeded, g3, rs3, xs1 @ xs2 @ xs3)"
      unfolding modelAttempt_Succeeded using u i t by blast
    with k have "trials (modelAttempt lim fs modelPath configPath codePath) (0 + k) gk rsk
        = Some (Returns (), g3, rs3, xs1 @ xs2 @ xs3, [Succeeded])"
      by (simp add: trials_succeeded)
    moreover have "0 + k \<le> Suc defaultMaxRetries" using k by simp
    ultimately show ?thesis
      using trials_after_failed [OF r, of 0] by (simp add: UploadModel_def)
  qed
  have lose_model: "UploadModel lim fs modelPath configPath codePath g rs
         = Some (Halts FatalNotUploaded, gk, rsk, pre, replicate (defaultMaxRetries + 1) Failed)"
    if r: "replay (modelAttempt lim fs modelPath configPath codePath) (defaultMaxRetries + 1) g rs
         = Some (replicate (defaultMaxRetries + 1) Failed, gk, rsk, pre)"
  proof -
    have "trials (modelAttempt lim fs modelPath configPath codePath) (0 + (defaultMaxRetries + 1)) gk rsk
        = Some (Halts FatalNotUploaded, gk, rsk, [], [])"
      by (simp add: trials_stop)
    then show ?thesis
      using trials_after_failed [OF r, of 0] by (simp add: UploadModel_def)
  qed
  show ?thesis
    apply (intro conjI)
             apply (rule impI, erule run_video)
            apply (intro impI, rule win_video; assumption)
           apply (rule impI, erule lose_video)
          apply (rule videoAttempt_Succeeded)
         apply (rule videoAttempt_Failed)
        apply (rule impI, erule run_model)
       apply (intro impI, rule win_model; assumption)
      apply (rule impI, erule lose_model)
     apply (rule modelAttempt_Succeeded)
    apply (rule modelAttempt_Failed)
    done
qed

theorem retry_loop_bounded_witness:
  "replay (videoAttempt host videoFs ''v.mp4'') 1 pool3
       [DoFails, answer 200 [], answer 201 [(''ID'', ''s1'')], answer 201 []]
     = Some (replicate 1 Failed, pool3\<lparr>masterURL := ''m1'', lastUsedMaster := 1\<rparr>,
             [answer 200 [], answer 201 [(''ID'', ''s1'')], answer 201 []],
             [(Discover ''m0'', DoFails)])
   \<and> UploadVideo host videoFs ''v.mp4'' pool3
       [DoFails, answer 200 [], answer 201 [(''ID'', ''s1'')], answer 201 []]
     = Some (Returns (),
             pool3\<lparr>masterURL := ''m1'', lastUsedMaster := 1, uploadURL := ''node''\<rparr>, [],
             [(Discover ''m0'', DoFails),
              (Discover ''m1'', answer 200 []),
              (InitRequest ''node'' ''v.mp4'' ''video'' [(''Filesize'', 3)],
               answer 201 [(''ID'', ''s1'')]),
              (Append ''node'' ''s1'' 0 ''abc'', answer 201 [])],
             [Failed, Succeeded])
   \<and> length [Failed, Succeeded] \<le> defaultMaxRetries + 1
   \<and> discoveries [(Discover ''m0'', DoFails),
              (Discover ''m1'', answer 200 []),
              (InitRequest ''node'' ''v.mp4'' ''video'' [(''Filesize'', 3)],
               answer 201 [(''ID'', ''s1'')]),
              (Append ''node'' ''s1'' 0 ''abc'', answer 201 [])] = 2
   \<and> UploadVideo host videoFs ''v.mp4'' pool3 [DoFails, DoFails, DoFails, DoFails]
     = Some (Halts FatalNotUploaded, pool3\<lparr>masterURL := ''m1'', lastUsedMaster := 1\<rparr>, [],
             [(Discover ''m0'', DoFails), (Discover ''m1'', DoFails),
              (Discover ''m2'', DoFails), (Discover ''m0'', DoFails)],
             replicate (defaultMaxRetries + 1) Failed)
   \<and> UploadModel host modelFs ''m.bin'' ''m.cfg'' ''m.py'' pool3
       [answer 200 [], answer 201 [(''ID'', ''s1'')], answer 200 [], answer 200 [], answer 201 []]
     = Some (Returns (), pool3\<lparr>uploadURL := ''node''\<rparr>, [],
             [(Discover ''m0'', answer 200 []),
              (InitRequest ''node'' ''m.bin'' ''model''
                 [(''Filesize'', 4), (''Model-Size'', 2), (''Config-Size'', 1), (''Code-Size'', 1)],
               answer 201 [(''ID'', ''s1'')]),
              (Append ''node'' ''s1'' 0 ''ab'', answer 200 []),
              (Append ''node'' ''s1'' 2 ''c'', answer 200 []),
              (Append ''node'' ''s1'' 3 ''d'', answer 201 [])],
             [Succeeded])"
proof -
  let ?rs = "[DoFails, answer 200 [], answer 201 [(''ID'', ''s1'')], answer 201 []]"
  let ?g1 = "pool3\<lparr>masterURL := ''m1'', lastUsedMaster := 1\<rparr>"
  let ?g2 = "pool3\<lparr>masterURL := ''m1'', lastUsedMaster := 1, uploadURL := ''node''\<rparr>"
  let ?gm = "pool3\<lparr>uploadURL := ''node''\<rparr>"
  let ?xs = "[(Discover ''m0'', DoFails),
              (Discover ''m1'', answer 200 []),
              (InitRequest ''node'' ''v.mp4'' ''video'' [(''Filesize'', 3)],
               answer 201 [(''ID'', ''s1'')]),
              (Append ''node'' ''s1'' 0 ''abc'', answer 201 [])]"
  have four: "defaultMaxRetries + 1 = Suc (Suc (Suc (Suc 0)))"
    by (simp add: defaultMaxRetries_def)
  have k: "1 \<le> defaultMaxRetries" "0 \<le> defaultMaxRetries"
    by (simp_all add: defaultMaxRetries_def)
  have r1: "replay (videoAttempt host videoFs ''v.mp4'') 1 pool3 ?rs
     = Some (replicate 1 Failed, ?g1,
             [answer 200 [], answer 201 [(''ID'', ''s1'')], answer 201 []],
             [(Discover ''m0'', DoFails)])"
    by (simp add: attempt_eval run_eval signed_modulo_int_def)
  have u: "updateUploadURL ?g1 [answer 200 [], answer 201 [(''ID'', ''s1'')], answer 201 []]
     = Some (Returns None, ?g2, [answer 201 [(''ID'', ''s1'')], answer 201 []],
             [(Discover ''m1'', answer 200 [])])"
    by (simp add: attempt_eval run_eval)
  have i: "sendVideoInitialRequest videoFs ?g2 ''v.mp4'' [answer 201 [(''ID'', ''s1'')], answer 201 []]
     = Some (Returns (''s1'', None), ?g2, [answer 201 []],
             [(InitRequest ''node'' ''v.mp4'' ''video'' [(''Filesize'', 3)],
               answer 201 [(''ID'', ''s1'')])])"
    by (simp add: attempt_eval run_eval)
  have t: "uploadFiles host videoFs ?g2 ''s1'' [''video'' \<mapsto> ''v.mp4''] [''video''] [answer 201 []]
     = Some (Returns None, ?g2, [], [(Append ''node'' ''s1'' 0 ''abc'', answer 201 [])])"
    by (simp add: attempt_eval run_eval)
  have win: "UploadVideo host videoFs ''v.mp4'' pool3 ?rs
     = Some (Returns (), ?g2, [], ?xs, [Failed, Succeeded])"
    using retry_loop_bounded [where lim = host and fs = videoFs and videoPath = "''v.mp4''"
        and g = pool3 and rs = ?rs and k = 1,
        THEN conjunct2, THEN conjunct1, rule_format, OF k(1) r1 u i t]
    by simp
  have shape: "length [Failed, Succeeded] \<le> defaultMaxRetries + 1
      \<and> discoveries ?xs = length [Failed, Succeeded]"
    using retry_loop_bounded [where lim = host and fs = videoFs and videoPath = "''v.mp4''"
        and g = pool3 and rs = ?rs, THEN conjunct1, rule_format, OF win]
    by blast
  have r4: "replay (videoAttempt host videoFs ''v.mp4'') (defaultMaxRetries + 1) pool3
              [DoFails, DoFails, DoFails, DoFails]
     = Some (replicate (defaultMaxRetries + 1) Failed, ?g1, [],
             [(Discover ''m0'', DoFails), (Discover ''m1'', DoFails),
              (Discover ''m2'', DoFails), (Discover ''m0'', DoFails)])"
    unfolding four by (simp add: attempt_eval run_eval signed_modulo_int_def)
  have lose: "UploadVideo host videoFs ''v.mp4'' pool3 [DoFails, DoFails, DoFails, DoFails]
     = Some (Halts FatalNotUploaded, ?g1, [],
             [(Discover ''m0'', DoFails), (Discover ''m1'', DoFails),
              (Discover ''m2'', DoFails), (Discover ''m0'', DoFails)],
             replicate (defaultMaxRetries + 1) Failed)"
    using retry_loop_bounded [where lim = host and fs = videoFs and videoPath = "''v.mp4''"
        and g = pool3 and rs = "[DoFails, DoFails, DoFails, DoFails]",
        THEN conjunct2, THEN conjunct2, THEN conjunct1, rule_format, OF r4] .
  let ?ms = "[answer 200 [], answer 201 [(''ID'', ''s1'')], answer 200 [], answer 200 [],
              answer 201 []]"
  have r0: "replay (modelAttempt host modelFs ''m.bin'' ''m.cfg'' ''m.py'') 0 pool3 ?ms
     = Some (replicate 0 Failed, pool3, ?ms, [])"
    by simp
  have mu: "updateUploadURL pool3 ?ms
     = Some (Returns None, ?gm,
             [answer 201 [(''ID'', ''s1'')], answer 200 [], answer 200 [], answer 201 []],
             [(Discover ''m0'', answer 200 [])])"
    by (simp add: attempt_eval run_eval)
  have mi: "sendModelInitialRequest modelFs ?gm ''m.bin'' ''m.cfg'' ''m.py''
              [answer 201 [(''ID'', ''s1'')], answer 200 [], answer 200 [], answer 201 []]
     = Some (Returns (''s1'', None), ?gm, [answer 200 [], answer 200 [], answer 201 []],
             [(InitRequest ''node'' ''m.bin'' ''model''
                 [(''Filesize'', 4), (''Model-Size'', 2), (''Config-Size'', 1), (''Code-Size'', 1)],
               answer 201 [(''ID'', ''s1'')])])"
    by (simp add: attempt_eval run_eval)
  have mt: "uploadFiles host modelFs ?gm ''s1''
              [''model'' \<mapsto> ''m.bin'', ''config'' \<mapsto> ''m.cfg'', ''code'' \<mapsto> ''m.py'']
              modelUploadOrder [answer 200 [], answer 200 [], answer 201 []]
     = Some (Returns None, ?gm, [],
             [(Append ''node'' ''s1'' 0 ''ab'', answer 200 []),
              (Append ''node'' ''s1'' 2 ''c'', answer 200 []),
              (Append ''node'' ''s1'' 3 ''d'', answer 201 [])])"
    by (simp add: attempt_eval run_eval)
  have mwin: "UploadModel host modelFs ''m.bin'' ''m.cfg'' ''m.py'' pool3 ?ms
     = Some (Returns (), ?gm, [],
             [(Discover ''m0'', answer 200 []),
              (InitRequest ''node'' ''m.bin'' ''model''
                 [(''Filesize'', 4), (''Model-Size'', 2), (''Config-Size'', 1), (''Code-Size'', 1)],
               answer 201 [(''ID'', ''s1'')]),
              (Append ''node'' ''s1'' 0 ''ab'', answer 200 []),
              (Append ''node'' ''s1'' 2 ''c'', answer 200 []),
              (Append ''node'' ''s1'' 3 ''d'', answer 201 [])],
             [Succeeded])"
    using retry_loop_bounded [where lim = host and fs = modelFs and modelPath = "''m.bin''"
        and configPath = "''m.cfg''" and codePath = "''m.py''" and g = pool3 and rs = ?ms
        and k = 0,
        THEN conjunct2, THEN conjunct2, THEN conjunct2, THEN conjunct2, THEN conjunct2,
        THEN conjunct2, THEN conjunct1, rule_format, OF k(2) r0 mu mi mt]
    by simp
  from shape have shape': "length [Failed, Succeeded] \<le> defaultMaxRetries + 1"
    "discoveries ?xs = 2"
    by simp_all
  from r1 win shape' lose mwin show ?thesis
    by (intro conjI)
qed

subsection \<open>Local file errors\<close>




end
